theory Spec2Isabelle
  imports Main "HOL-Library.AList"
begin

section \<open>C library functions used by the scripts\<close>

text \<open>
  The generated LoadRunner scripts (\<^verbatim>\<open>BizObsJourneyTest.c\<close>) build their identifiers with
  \<^verbatim>\<open>sprintf\<close> and the conversion \<^verbatim>\<open>%d\<close>, and read the response status with \<^verbatim>\<open>atoi\<close>.
  A C \<^verbatim>\<open>int\<close> is modelled as an \<open>int\<close>; the scripts do no arithmetic on these values apart
  from one remainder, so no wrap-around is involved.
\<close>

definition digit_char :: "nat \<Rightarrow> char" where
  "digit_char d = ''0123456789'' ! (d mod 10)"

fun show_nat :: "nat \<Rightarrow> string" where
  "show_nat n = (if n < 10 then [digit_char n] else show_nat (n div 10) @ [digit_char (n mod 10)])"

declare show_nat.simps [simp del]

text \<open>The text that \<^verbatim>\<open>%d\<close> prints for an \<^verbatim>\<open>int\<close>.\<close>

definition show_int :: "int \<Rightarrow> string" where
  "show_int i = (if i < 0 then CHR ''-'' # show_nat (nat (- i)) else show_nat (nat i))"

text \<open>C's \<^verbatim>\<open>%\<close> on \<^verbatim>\<open>int\<close> truncates towards zero: the remainder has the sign of the dividend.\<close>

definition c_rem :: "int \<Rightarrow> int \<Rightarrow> int" where
  "c_rem a b = (if a < 0 then - ((- a) mod \<bar>b\<bar>) else a mod \<bar>b\<bar>)"

definition is_digit :: "char \<Rightarrow> bool" where
  "is_digit c = (c \<in> set ''0123456789'')"

definition digit_val :: "char \<Rightarrow> int" where
  "digit_val c = int (of_char c) - 48"

definition is_space :: "char \<Rightarrow> bool" where
  "is_space c = (c \<in> set [CHR '' '', CHR 0x09, CHR 0x0A, CHR 0x0B, CHR 0x0C, CHR 0x0D])"

fun atoi_digits :: "int \<Rightarrow> string \<Rightarrow> int" where
  "atoi_digits acc [] = acc"
| "atoi_digits acc (c # cs) = (if is_digit c then atoi_digits (10 * acc + digit_val c) cs else acc)"

text \<open>
  \<^verbatim>\<open>atoi\<close>: skips white space, takes an optional sign and then the longest run of digits;
  text that does not start with a number gives 0.
\<close>

definition atoi :: "string \<Rightarrow> int" where
  "atoi s =
     (case dropWhile is_space s of
        [] \<Rightarrow> 0
      | c # cs \<Rightarrow>
          if c = CHR ''-'' then - atoi_digits 0 cs
          else if c = CHR ''+'' then atoi_digits 0 cs
          else atoi_digits 0 (c # cs))"


datatype arg = I int | S string

text \<open>
  \<^verbatim>\<open>sprintf\<close> for the two conversions the scripts use, \<^verbatim>\<open>%d\<close> and \<^verbatim>\<open>%s\<close>. The result is
  the formatted text; whether it fits the destination buffer is a separate question
  (see \<open>fits_buffer\<close> below). A conversion whose argument is missing or of the other kind
  does not occur in the scripts; the model copies it unchanged.
\<close>

fun sprintf :: "string \<Rightarrow> arg list \<Rightarrow> string" where
  "sprintf [] args = []"
| "sprintf [c] args = [c]"
| "sprintf (c # d # cs) args =
     (if c = CHR ''%'' \<and> d = CHR ''d'' then
        (case args of I i # rest \<Rightarrow> show_int i @ sprintf cs rest | _ \<Rightarrow> c # d # sprintf cs args)
      else if c = CHR ''%'' \<and> d = CHR ''s'' then
        (case args of S t # rest \<Rightarrow> t @ sprintf cs rest | _ \<Rightarrow> c # d # sprintf cs args)
      else c # sprintf (d # cs) args)"

text \<open>
  A \<^verbatim>\<open>char buf[n]\<close> holds a string of at most \<open>n - 1\<close> characters and its terminating NUL.
\<close>

definition fits_buffer :: "nat \<Rightarrow> string \<Rightarrow> bool" where
  "fits_buffer n txt = (length txt < n)"

section \<open>The LoadRunner client\<close>

text \<open>
  The scripts are written against the LoadRunner API (\<^verbatim>\<open>lrun.h\<close>, \<^verbatim>\<open>web_api.h\<close>), an
  external library. Its functions are modelled by their documented behaviour on an explicit
  client state:
  \<^item> \<^verbatim>\<open>lr_save_string(value, name)\<close> stores a parameter; \<^verbatim>\<open>lr_eval_string\<close> replaces every
    \<^verbatim>\<open>{name}\<close> of a defined parameter by its value and leaves other text unchanged;
  \<^item> \<^verbatim>\<open>web_add_header\<close> adds a header to the next request only; \<^verbatim>\<open>web_add_auto_header\<close>
    (which the scripts never call) adds one to every later request and
    \<^verbatim>\<open>web_revert_auto_header\<close> takes such a header back;
  \<^item> \<^verbatim>\<open>web_custom_request\<close> sends the request with the headers collected so far and stores
    parameters only where a \<^verbatim>\<open>web_reg_save_param\<close> was registered before (the scripts
    register none). A response with status 400 or more, or no response at all, is an error of
    the request. What happens then is a run-time setting of LoadRunner, ``continue on error'',
    which no line of the scripts selects (they never call \<^verbatim>\<open>lr_continue_on_error\<close>): with the
    setting on, the function returns \<^verbatim>\<open>LR_FAIL\<close>, which the scripts ignore, and the next
    statement runs; with the setting off, as it is by default, the virtual user is aborted and
    no further statement of \<^verbatim>\<open>Action\<close> runs. The setting is an input of the model
    (\<open>continue_on_error\<close> below). What the engine does with the transactions that are open
    when it aborts a virtual user is outside the scripts and not modelled;
  \<^item> the transport settings of \<^verbatim>\<open>vuser_init\<close> (retries, time-out, user agent) are recorded;
    a request is logged once, with what finally comes back for it after the retries the
    client makes;
  \<^item> a transaction is opened by \<^verbatim>\<open>lr_start_transaction\<close> and closed, with a status, by
    \<^verbatim>\<open>lr_end_transaction\<close>; ending a transaction that is not open is reported as an error
    and records nothing.
  Everything observable is appended to a log, oldest entry first. Durations are not modelled:
  a message that prints one is logged as its format text.
\<close>

datatype lr_status = LR_PASS | LR_FAIL | LR_AUTO

datatype json =
    JString string
  | JNumber int
  | JBool bool
  | JObject "(string \<times> json) list"
  | JArray "json list"

record request =
  req_name :: string
  req_url :: string
  req_method :: string
  req_headers :: "(string \<times> string) list"
  req_cookies :: "string list"
  req_body :: json

text \<open>What comes back for a request: nothing (a transport failure), or a status code and the
  cookies the server sets.\<close>

datatype response = No_Response | Http_Response int "string list"

datatype event =
    Output_Message string
  | Error_Message string
  | Param_Saved string string
  | Transaction_Started string
  | Transaction_Ended string lr_status
  | Transaction_Error string
  | Request_Sent request response
  | Cookies_Cleared
  | Think_Time nat

text \<open>
  The state of one virtual user: the client's parameters, headers, cookies, transport settings
  and open transactions, the log, the five global buffers of the script, and whether the
  virtual user has been aborted.
\<close>

record vuser_state =
  params :: "string \<rightharpoonup> string"
  pending_headers :: "(string \<times> string) list"
  auto_headers :: "(string \<times> string) list"
  cookies :: "string list"
  settings :: "(string \<times> string) list"
  open_transactions :: "string list"
  log :: "event list"
  dt_test_header :: string
  correlation_id :: string
  customer_id :: string
  session_id :: string
  trace_id :: string
  aborted :: bool

text \<open>
  Parameter substitution scans the text once. The second argument is the parameter name
  collected since the last opening brace, if any. A reference to a parameter that is not
  defined stays as it is.
\<close>

definition param_text :: "(string \<rightharpoonup> string) \<Rightarrow> string \<Rightarrow> string" where
  "param_text ps n = (case ps n of Some v \<Rightarrow> v | None \<Rightarrow> CHR ''{'' # n @ ''}'')"

fun subst_params :: "(string \<rightharpoonup> string) \<Rightarrow> string option \<Rightarrow> string \<Rightarrow> string" where
  "subst_params ps None [] = []"
| "subst_params ps (Some n) [] = CHR ''{'' # n"
| "subst_params ps None (c # cs) =
     (if c = CHR ''{'' then subst_params ps (Some []) cs else c # subst_params ps None cs)"
| "subst_params ps (Some n) (c # cs) =
     (if c = CHR ''}'' then param_text ps n @ subst_params ps None cs
      else if c = CHR ''{'' then CHR ''{'' # n @ subst_params ps (Some []) cs
      else subst_params ps (Some (n @ [c])) cs)"

definition lr_eval_string :: "vuser_state \<Rightarrow> string \<Rightarrow> string" where
  "lr_eval_string s txt = subst_params (params s) None txt"

text \<open>The same substitution in every string of a request body.\<close>

primrec json_subst :: "(string \<rightharpoonup> string) \<Rightarrow> json \<Rightarrow> json" where
  "json_subst ps (JString t) = JString (subst_params ps None t)"
| "json_subst ps (JNumber n) = JNumber n"
| "json_subst ps (JBool b) = JBool b"
| "json_subst ps (JObject kvs) = JObject (map (map_prod id (json_subst ps)) kvs)"
| "json_subst ps (JArray js) = JArray (map (json_subst ps) js)"

definition emit :: "event \<Rightarrow> vuser_state \<Rightarrow> vuser_state" where
  "emit ev s = s\<lparr>log := log s @ [ev]\<rparr>"

definition lr_output_message :: "string \<Rightarrow> vuser_state \<Rightarrow> vuser_state" where
  "lr_output_message txt s = emit (Output_Message txt) s"

definition lr_error_message :: "string \<Rightarrow> vuser_state \<Rightarrow> vuser_state" where
  "lr_error_message txt s = emit (Error_Message txt) s"

definition lr_save_string :: "string \<Rightarrow> string \<Rightarrow> vuser_state \<Rightarrow> vuser_state" where
  "lr_save_string v name s = emit (Param_Saved name v) (s\<lparr>params := (params s)(name \<mapsto> v)\<rparr>)"

definition lr_start_transaction :: "string \<Rightarrow> vuser_state \<Rightarrow> vuser_state" where
  "lr_start_transaction name s =
     (let n = lr_eval_string s name in
      if n \<in> set (open_transactions s) then emit (Transaction_Error n) s
      else emit (Transaction_Started n) (s\<lparr>open_transactions := n # open_transactions s\<rparr>))"

definition lr_end_transaction :: "string \<Rightarrow> lr_status \<Rightarrow> vuser_state \<Rightarrow> vuser_state" where
  "lr_end_transaction name st s =
     (let n = lr_eval_string s name in
      if n \<in> set (open_transactions s)
      then emit (Transaction_Ended n st) (s\<lparr>open_transactions := removeAll n (open_transactions s)\<rparr>)
      else emit (Transaction_Error n) s)"

definition lr_think_time :: "nat \<Rightarrow> vuser_state \<Rightarrow> vuser_state" where
  "lr_think_time secs s = emit (Think_Time secs) s"

definition web_add_header :: "string \<Rightarrow> string \<Rightarrow> vuser_state \<Rightarrow> vuser_state" where
  "web_add_header name v s = s\<lparr>pending_headers := pending_headers s @ [(name, lr_eval_string s v)]\<rparr>"

definition web_revert_auto_header :: "string \<Rightarrow> vuser_state \<Rightarrow> vuser_state" where
  "web_revert_auto_header name s = s\<lparr>auto_headers := filter (\<lambda>h. fst h \<noteq> name) (auto_headers s)\<rparr>"

definition web_cleanup_cookies :: "vuser_state \<Rightarrow> vuser_state" where
  "web_cleanup_cookies s = emit Cookies_Cleared (s\<lparr>cookies := []\<rparr>)"

definition web_set :: "string \<Rightarrow> string \<Rightarrow> vuser_state \<Rightarrow> vuser_state" where
  "web_set key v s = s\<lparr>settings := AList.update key v (settings s)\<rparr>"

definition response_cookies :: "response \<Rightarrow> string list" where
  "response_cookies r = (case r of No_Response \<Rightarrow> [] | Http_Response code cs \<Rightarrow> cs)"

text \<open>The request is in error when nothing comes back or the status is 400 or more.\<close>

definition request_failed :: "response \<Rightarrow> bool" where
  "request_failed r = (case r of No_Response \<Rightarrow> True | Http_Response code cs \<Rightarrow> code \<ge> 400)"

text \<open>Whether the call returns control to the script: always with ``continue on error'',
  otherwise only when the request is not in error.\<close>

definition call_returns :: "bool \<Rightarrow> response \<Rightarrow> bool" where
  "call_returns continue r = (if request_failed r then continue else True)"

text \<open>\<open>continue\<close> is the run-time setting, \<open>resp\<close> what comes back for the request.\<close>

definition web_custom_request ::
    "string \<Rightarrow> string \<Rightarrow> string \<Rightarrow> json \<Rightarrow> bool \<Rightarrow> response \<Rightarrow> vuser_state \<Rightarrow> vuser_state" where
  "web_custom_request name url method body continue resp s =
     emit (Request_Sent
             \<lparr>req_name = lr_eval_string s name, req_url = lr_eval_string s url, req_method = method,
              req_headers = pending_headers s @ auto_headers s, req_cookies = cookies s,
              req_body = json_subst (params s) body\<rparr> resp)
          (s\<lparr>pending_headers := [], cookies := cookies s @ response_cookies resp,
             aborted := (if call_returns continue resp then aborted s else True)\<rparr>)"

text \<open>A straight-line block of statements none of which can fail runs them in order.\<close>

definition run :: "('s \<Rightarrow> 's) list \<Rightarrow> 's \<Rightarrow> 's" where
  "run stmts s = foldl (\<lambda>s f. f s) s stmts"

text \<open>A block that sends requests runs its statements in order for as long as the virtual user
  has not been aborted; the statements after an aborting request do not run.\<close>

fun run_until_abort :: "(vuser_state \<Rightarrow> vuser_state) list \<Rightarrow> vuser_state \<Rightarrow> vuser_state" where
  "run_until_abort [] s = s"
| "run_until_abort (f # fs) s = (if aborted s then s else run_until_abort fs (f s))"


section \<open>The generated scripts\<close>

text \<open>
  Every script is an instance of one template. What differs between the scripts is collected in
  a record, with each literal as it stands in the source; the step blocks of \<^verbatim>\<open>Action\<close> differ
  only in the step's number, name, service, description, estimated duration, sub-steps and
  think time. The description and the sub-step list are free text that is copied into the
  request body and read nowhere; they are left out of the model. (The generator pasted the
  sub-step list into the C string without escaping its quotes, and it joins the completion
  time to the body of the completion event with \<open>+\<close>; the model takes both for the
  text they stand for.) Request bodies are modelled as JSON values, not as text.
\<close>

record step =
  step_number :: int
  step_name :: string
  service_name :: string
  estimated_duration :: int
  think_time :: nat

record script =
  company :: string
  domain :: string
  lsn :: string
  ltn :: string
  init_ltn :: string
  correlation_format :: string
  session_format :: string
  dt_header_format :: string
  error_simulation_enabled :: bool
  steps :: "step list"
  total_steps :: int

definition argos_steps :: "step list" where
  "argos_steps =
    [\<lparr>step_number = 1, step_name = ''ProductDiscovery'', service_name = ''ProductDiscoveryService'',
      estimated_duration = 4, think_time = 5\<rparr>,
     \<lparr>step_number = 2, step_name = ''BasketManagement'', service_name = ''BasketManagementService'',
      estimated_duration = 3, think_time = 5\<rparr>,
     \<lparr>step_number = 3, step_name = ''CheckoutInitiation'', service_name = ''CheckoutInitiationService'',
      estimated_duration = 5, think_time = 5\<rparr>,
     \<lparr>step_number = 4, step_name = ''PaymentProcessing'', service_name = ''PaymentProcessingService'',
      estimated_duration = 3, think_time = 5\<rparr>,
     \<lparr>step_number = 5, step_name = ''FulfilmentAllocation'', service_name = ''FulfilmentAllocationService'',
      estimated_duration = 2, think_time = 5\<rparr>,
     \<lparr>step_number = 6, step_name = ''DeliveryCompletion'', service_name = ''DeliveryCompletionService'',
      estimated_duration = 1440, think_time = 1\<rparr>]"

text \<open>\<^verbatim>\<open>Argos_2026-01-06T13-48-03-019Z/BizObsJourneyTest.c\<close>\<close>

definition argos :: script where
  "argos =
    \<lparr>company = ''Argos'', domain = ''www.Argos.co.uk'',
     lsn = ''BizObs_Argos_www.Argos.co.uk_Journey'', ltn = ''Argos_LoadTest_20260106'',
     init_ltn = ''Argos_Performance_Test_2026-01-06T13-48-03-019Z'',
     correlation_format = ''LR_Argos_LoadTest_20260106_%d_%d_%d'',
     session_format = ''session_BizObs_Argos_www.Argos.co.uk_Journey_%d_%d'',
     dt_header_format = ''TSN=%s;LSN=%s;LTN=%s;VU=%d;SI=LoadRunner;PC=BizObs-Demo;AN=Argos;CID=%s'',
     error_simulation_enabled = True, steps = argos_steps, total_steps = 6\<rparr>"

text \<open>\<^verbatim>\<open>Argos_2026-01-06T14-00-16-681Z/BizObsJourneyTest.c\<close>\<close>

definition argos_short :: script where
  "argos_short =
    \<lparr>company = ''Argos'', domain = ''www.Argos.co.uk'',
     lsn = ''BizObs_Argos_www.Argos.co.uk_Journey'', ltn = ''Argos_LoadTest_20260106'',
     init_ltn = ''Argos_Performance_Test_2026-01-06T14-00-16-681Z'',
     correlation_format = ''LR_Argos_LoadTest_20260106_%d_%d_%d'',
     session_format = ''session_BizObs_Argos_www.Argos.co.uk_Journey_%d_%d'',
     dt_header_format = ''TSN=%s;LSN=%s;LTN=%s;VU=%d;SI=LoadRunner;PC=BizObs-Demo;AN=Argos;CID=%s'',
     error_simulation_enabled = True,
     steps =
       [\<lparr>step_number = 1, step_name = ''ProductDiscovery'', service_name = ''ProductDiscoveryService'',
         estimated_duration = 4000, think_time = 4\<rparr>,
        \<lparr>step_number = 2, step_name = ''BasketManagement'', service_name = ''BasketManagementService'',
         estimated_duration = 3000, think_time = 3\<rparr>],
     total_steps = 2\<rparr>"

text \<open>\<^verbatim>\<open>Bt_2026-02-05T09-19-25-621Z/BizObsJourneyTest.c\<close>\<close>

definition bt :: script where
  "bt =
    \<lparr>company = ''Bt'', domain = ''www.bt.com'',
     lsn = ''BizObs_Bt_www.bt.com_Journey'', ltn = ''Bt_LoadTest_20260205'',
     init_ltn = ''Bt_Performance_Test_2026-02-05T09-19-25-622Z'',
     correlation_format = ''LR_Bt_LoadTest_20260205_%d_%d_%d'',
     session_format = ''session_BizObs_Bt_www.bt.com_Journey_%d_%d'',
     dt_header_format = ''TSN=%s;LSN=%s;LTN=%s;VU=%d;SI=LoadRunner;PC=BizObs-Demo;AN=Bt;CID=%s'',
     error_simulation_enabled = False,
     steps =
       [\<lparr>step_number = 1, step_name = ''ComparisonClickthrough'',
         service_name = ''ComparisonClickthroughService'', estimated_duration = 2, think_time = 5\<rparr>,
        \<lparr>step_number = 2, step_name = ''PlanSelection'', service_name = ''PlanSelectionService'',
         estimated_duration = 4, think_time = 5\<rparr>,
        \<lparr>step_number = 3, step_name = ''IdentityVerification'',
         service_name = ''IdentityVerificationService'', estimated_duration = 3, think_time = 5\<rparr>,
        \<lparr>step_number = 4, step_name = ''BasketReview'', service_name = ''BasketReviewService'',
         estimated_duration = 3, think_time = 5\<rparr>,
        \<lparr>step_number = 5, step_name = ''CheckoutPayment'', service_name = ''CheckoutPaymentService'',
         estimated_duration = 5, think_time = 5\<rparr>,
        \<lparr>step_number = 6, step_name = ''OrderConfirmationProvisioning'',
         service_name = ''OrderConfirmationProvisioningService'', estimated_duration = 2,
         think_time = 5\<rparr>],
     total_steps = 6\<rparr>"

definition scripts :: "script list" where
  "scripts = [argos, argos_short, bt]"

subsection \<open>The customer catalogues\<close>

definition customer_names :: "string list" where
  "customer_names =
    [''Sarah Johnson'', ''Michael Chen'', ''Emma Rodriguez'', ''David Kim'',
     ''Ashley Thompson'', ''Robert Martinez'', ''Jennifer Lee'', ''Christopher Brown'',
     ''Amanda Wilson'', ''Joshua Garcia'', ''Melissa Davis'', ''Andrew Miller'',
     ''Jessica Anderson'', ''Kevin Taylor'', ''Lauren Thomas'', ''Brian Jackson'']"

definition customer_emails :: "string list" where
  "customer_emails =
    [''sarah.johnson@email.com'', ''michael.chen@email.com'', ''emma.rodriguez@email.com'',
     ''david.kim@email.com'', ''ashley.thompson@email.com'', ''robert.martinez@email.com'',
     ''jennifer.lee@email.com'', ''christopher.brown@email.com'', ''amanda.wilson@email.com'',
     ''joshua.garcia@email.com'', ''melissa.davis@email.com'', ''andrew.miller@email.com'',
     ''jessica.anderson@email.com'', ''kevin.taylor@email.com'', ''lauren.thomas@email.com'',
     ''brian.jackson@email.com'']"

definition customer_segments :: "string list" where
  "customer_segments = [''Premium'', ''Standard'', ''Budget'', ''Enterprise'', ''SMB'', ''Startup'']"

definition traffic_sources :: "string list" where
  "traffic_sources =
    [''Google_Ads'', ''Facebook_Campaign'', ''Email_Newsletter'', ''Direct_Traffic'',
     ''Referral_Partner'', ''Organic_Search'', ''Social_Media'', ''Content_Marketing'']"

subsection \<open>What the run-time environment supplies\<close>

text \<open>
  \<open>vuser_id\<close> is \<^verbatim>\<open>lr_get_vuser_id()\<close>, \<open>iteration\<close> is \<^verbatim>\<open>lr_get_iteration_number()\<close>,
  \<open>clock k\<close> is the value of the \<open>k\<close>-th \<^verbatim>\<open>(int)time(NULL)\<close> of the iteration,
  \<open>server k\<close> is what comes back for the \<open>k\<close>-th request of the iteration,
  \<open>rand_draw k\<close> is the \<open>k\<close>-th value of \<^verbatim>\<open>rand()\<close> after the seeding in \<^verbatim>\<open>vuser_init\<close>
  (\<^verbatim>\<open>rand\<close> returns a value between 0 and \<^verbatim>\<open>RAND_MAX\<close>), and \<open>continue_on_error\<close> is
  the run-time setting of that name, with which the scenario runs the script.
\<close>

record environment =
  vuser_id :: int
  iteration :: int
  clock :: "nat \<Rightarrow> int"
  server :: "nat \<Rightarrow> response"
  rand_draw :: "nat \<Rightarrow> nat"
  continue_on_error :: bool

subsection \<open>\<^verbatim>\<open>vuser_init\<close> and \<^verbatim>\<open>vuser_end\<close>\<close>

definition vuser_init :: "script \<Rightarrow> environment \<Rightarrow> vuser_state \<Rightarrow> vuser_state" where
  "vuser_init sc e =
     run [lr_output_message (''Starting LoadRunner test for '' @ company sc),
          lr_save_string ''BizObs-Journey-LoadTest'' ''LSN'',
          lr_save_string (init_ltn sc) ''LTN'',
          (let customer_index = rand_draw e 0 mod 16 in
           run [lr_save_string (customer_names ! customer_index) ''customer_name'',
                lr_save_string (customer_emails ! customer_index) ''customer_email'']),
          lr_save_string (customer_segments ! (rand_draw e 1 mod 6)) ''customer_segment'',
          lr_save_string (traffic_sources ! (rand_draw e 2 mod 8)) ''traffic_source'',
          web_set ''max_html_param_len'' ''1024000'',
          web_set ''max_retries'' ''3'',
          web_set ''timeout Receive'' ''30'',
          web_set ''user_agent'' ''LoadRunner-BizObs-Agent/1.0'']"

definition vuser_end :: "script \<Rightarrow> vuser_state \<Rightarrow> vuser_state" where
  "vuser_end sc =
     lr_output_message (''Completed LoadRunner test for '' @ company sc @ '' - Customer: {customer_name}'')"


subsection \<open>\<^verbatim>\<open>Action\<close>: one iteration\<close>

definition simulate_url :: string where
  "simulate_url = ''http://localhost:8080/api/journey-simulation/simulate-journey''"

text \<open>
  The identifier block at the head of \<^verbatim>\<open>Action\<close>. The clock is read once per \<^verbatim>\<open>sprintf\<close>
  that uses it. A buffer is modelled as a string of any length and holds the text that
  \<^verbatim>\<open>sprintf\<close> formats. In the C program a buffer has 64 bytes: it holds that text when the
  text fits (\<open>fits_buffer 64\<close>); when it does not, \<^verbatim>\<open>sprintf\<close> writes past the end of the
  array and the behaviour of the program is undefined. What the generator is stated to produce
  is therefore stated for texts that fit (\<open>identifiers_fit\<close> below).
\<close>

definition generate_ids :: "script \<Rightarrow> environment \<Rightarrow> vuser_state \<Rightarrow> vuser_state" where
  "generate_ids sc e =
     run [(\<lambda>s. s\<lparr>correlation_id :=
                  sprintf (correlation_format sc) [I (vuser_id e), I (iteration e), I (clock e 0)]\<rparr>),
          (\<lambda>s. lr_save_string (correlation_id s) ''correlation_id'' s),
          (\<lambda>s. s\<lparr>customer_id :=
                  sprintf ''customer_%d_%d_%d''
                    [I (vuser_id e), I (iteration e), I (c_rem (clock e 1) 10000)]\<rparr>),
          (\<lambda>s. s\<lparr>session_id := sprintf (session_format sc) [I (vuser_id e), I (iteration e)]\<rparr>),
          (\<lambda>s. s\<lparr>trace_id := sprintf ''trace_%s_%d'' [S (correlation_id s), I (clock e 2)]\<rparr>),
          (\<lambda>s. lr_save_string (customer_id s) ''customer_id'' s),
          (\<lambda>s. lr_save_string (session_id s) ''session_id'' s),
          (\<lambda>s. lr_save_string (trace_id s) ''trace_id'' s)]"

text \<open>The body of a step request, as written in the script (parameters not yet replaced).\<close>

definition step_body :: "script \<Rightarrow> step \<Rightarrow> json" where
  "step_body sc st =
     JObject
      [(''journeyId'', JString ''{correlation_id}''),
       (''customerId'', JString ''{customer_id}''),
       (''sessionId'', JString ''{session_id}''),
       (''traceId'', JString ''{trace_id}''),
       (''chained'', JBool True),
       (''thinkTimeMs'', JNumber 250),
       (''errorSimulationEnabled'', JBool (error_simulation_enabled sc)),
       (''journey'', JObject
          [(''journeyId'', JString ''{correlation_id}''),
           (''companyName'', JString (company sc)),
           (''domain'', JString (domain sc)),
           (''steps'', JArray
              [JObject
                 [(''stepNumber'', JNumber (step_number st)),
                  (''stepName'', JString (step_name st)),
                  (''serviceName'', JString (service_name st)),
                  (''estimatedDuration'', JNumber (estimated_duration st))]]),
           (''additionalFields'', JObject []),
           (''customerProfile'', JObject
              [(''name'', JString ''{customer_name}''),
               (''email'', JString ''{customer_email}''),
               (''segment'', JString ''{customer_segment}''),
               (''userId'', JString ''{customer_id}''),
               (''deviceType'', JString ''desktop''),
               (''location'', JString ''US-East'')])])]"

text \<open>The check that follows every step request (``Check response for errors and handle
  accordingly'').\<close>

definition check_response :: "step \<Rightarrow> vuser_state \<Rightarrow> vuser_state" where
  "check_response st s =
     (if atoi (lr_eval_string s ''{status}'') \<ge> 400
      then run [lr_error_message
                  (sprintf (''Step '' @ step_name st @ '' failed with status: %s'')
                     [S (lr_eval_string s ''{status}'')]),
                lr_end_transaction (step_name st) LR_FAIL] s
      else lr_end_transaction (step_name st) LR_PASS s)"

text \<open>One step block of \<^verbatim>\<open>Action\<close>; \<open>resp\<close> is what comes back for its request.\<close>

definition execute_step :: "script \<Rightarrow> environment \<Rightarrow> step \<Rightarrow> response \<Rightarrow> vuser_state \<Rightarrow> vuser_state" where
  "execute_step sc e st resp =
     run_until_abort
         [lr_save_string (step_name st) ''TSN'',
          (\<lambda>s. s\<lparr>dt_test_header :=
                  sprintf (dt_header_format sc)
                    [S (step_name st), S (lsn sc), S (ltn sc), I (vuser_id e), S ''{correlation_id}'']\<rparr>),
          lr_start_transaction (step_name st),
          lr_output_message
            (''Executing step: '' @ step_name st @ '' (Service: '' @ service_name st @
             '') for {customer_name}''),
          (\<lambda>s. web_add_header ''X-dynaTrace'' (dt_test_header s) s),
          web_add_header ''x-correlation-id'' ''{correlation_id}'',
          web_add_header ''x-customer-id'' ''{customer_id}'',
          web_add_header ''x-session-id'' ''{session_id}'',
          web_add_header ''x-trace-id'' ''{trace_id}'',
          web_add_header ''x-step-name'' (step_name st),
          web_add_header ''x-service-name'' (service_name st),
          web_add_header ''x-customer-segment'' ''{customer_segment}'',
          web_add_header ''x-traffic-source'' ''{traffic_source}'',
          (\<lambda>s. web_add_header ''x-test-iteration'' (lr_eval_string s ''{pIteration}'') s),
          web_add_header ''Content-Type'' ''application/json'',
          web_add_header ''User-Agent'' ''LoadRunner-BizObs-Agent/1.0'',
          web_custom_request (step_name st @ ''_Journey_Step'') simulate_url ''POST''
            (step_body sc st) (continue_on_error e) resp,
          check_response st,
          web_cleanup_cookies,
          web_revert_auto_header ''x-dynatrace-test'',
          web_revert_auto_header ''x-correlation-id'',
          web_revert_auto_header ''x-customer-id'',
          web_revert_auto_header ''x-session-id'',
          web_revert_auto_header ''x-trace-id'',
          web_revert_auto_header ''x-step-name'',
          web_revert_auto_header ''x-customer-segment'',
          web_revert_auto_header ''x-traffic-source'',
          web_revert_auto_header ''x-test-iteration'',
          lr_end_transaction ''{TSN}'' LR_AUTO,
          lr_output_message ''Completed step: {TSN} - Response time: %d ms'',
          lr_think_time (think_time st)]"

text \<open>The step blocks follow one another; the \<open>k\<close>-th request of the iteration gets \<open>server e k\<close>.\<close>

fun run_steps :: "script \<Rightarrow> environment \<Rightarrow> nat \<Rightarrow> step list \<Rightarrow> vuser_state \<Rightarrow> vuser_state" where
  "run_steps sc e k [] s = s"
| "run_steps sc e k (st # sts) s = run_steps sc e (Suc k) sts (execute_step sc e st (server e k) s)"

definition completion_body :: "script \<Rightarrow> json" where
  "completion_body sc =
     JObject
      [(''eventType'', JString ''journey_completed''),
       (''correlationId'', JString ''{correlation_id}''),
       (''customerId'', JString ''{customer_id}''),
       (''companyName'', JString (company sc)),
       (''customerName'', JString ''{customer_name}''),
       (''customerSegment'', JString ''{customer_segment}''),
       (''totalSteps'', JNumber (total_steps sc)),
       (''loadTest'', JBool True),
       (''completionTime'', JString ''{TimeNow}'')]"

definition Action :: "script \<Rightarrow> environment \<Rightarrow> vuser_state \<Rightarrow> vuser_state" where
  "Action sc e =
     run_until_abort
         [generate_ids sc e,
          lr_save_string (lsn sc) ''LSN'',
          lr_save_string (ltn sc) ''LTN'',
          lr_start_transaction ''Full_Customer_Journey'',
          (\<lambda>s. lr_output_message
                 (sprintf ''Starting journey for customer: {customer_name} ({customer_segment}) - Journey: %s''
                    [S (correlation_id s)]) s),
          run_steps sc e 0 (steps sc),
          lr_end_transaction ''Full_Customer_Journey'' LR_AUTO,
          lr_output_message
            ''Journey completed for {customer_name} - Total time: %d ms, Correlation: {correlation_id}'',
          (\<lambda>s. web_add_header ''x-dynatrace-test'' (dt_test_header s) s),
          web_add_header ''x-correlation-id'' ''{correlation_id}'',
          web_add_header ''Content-Type'' ''application/json'',
          web_custom_request ''Journey_Completion_Event'' simulate_url ''POST''
            (completion_body sc) (continue_on_error e) (server e (length (steps sc)))]"

text \<open>A virtual user before \<^verbatim>\<open>vuser_init\<close>.\<close>

definition fresh_vuser :: vuser_state where
  "fresh_vuser =
     \<lparr>params = Map.empty, pending_headers = [], auto_headers = [], cookies = [], settings = [],
      open_transactions = [], log = [], dt_test_header = [], correlation_id = [],
      customer_id = [], session_id = [], trace_id = [], aborted = False\<rparr>"

subsection \<open>Reading the log\<close>

fun sent_requests :: "event list \<Rightarrow> request list" where
  "sent_requests [] = []"
| "sent_requests (Request_Sent r resp # evs) = r # sent_requests evs"
| "sent_requests (ev # evs) = sent_requests evs"

fun transaction_results :: "event list \<Rightarrow> (string \<times> lr_status) list" where
  "transaction_results [] = []"
| "transaction_results (Transaction_Ended n st # evs) = (n, st) # transaction_results evs"
| "transaction_results (ev # evs) = transaction_results evs"

text \<open>What an operation appended to the log of the state it started from.\<close>

definition new_events :: "vuser_state \<Rightarrow> vuser_state \<Rightarrow> event list" where
  "new_events s s' = drop (length (log s)) (log s')"

definition field :: "string \<Rightarrow> json \<Rightarrow> json option" where
  "field k j = (case j of JObject kvs \<Rightarrow> map_of kvs k | _ \<Rightarrow> None)"

definition header :: "string \<Rightarrow> request \<Rightarrow> string list" where
  "header name r = map snd (filter (\<lambda>h. fst h = name) (req_headers r))"

definition request_step_number :: "request \<Rightarrow> int option" where
  "request_step_number r =
     (case field ''journey'' (req_body r) of
        Some j \<Rightarrow>
          (case field ''steps'' j of
             Some (JArray [st]) \<Rightarrow>
               (case field ''stepNumber'' st of Some (JNumber n) \<Rightarrow> Some n | _ \<Rightarrow> None)
           | _ \<Rightarrow> None)
      | None \<Rightarrow> None)"

section \<open>Notions used in the statements\<close>

text \<open>
  Text without a character that parameter substitution (\<open>{\<close>), \<^verbatim>\<open>sprintf\<close> (\<open>%\<close>) or the
  tracing header (\<open>;\<close>) gives a meaning to.
\<close>

definition plain :: "string \<Rightarrow> bool" where
  "plain txt = (CHR ''{'' \<notin> set txt \<and> CHR ''%'' \<notin> set txt \<and> CHR '';'' \<notin> set txt)"

text \<open>
  What the three scripts have in common: the format literals are built from the run label
  (\<open>ltn\<close>), the journey label (\<open>lsn\<close>) and the company name, the names are plain text, the
  steps are numbered from 1 and the completion event reports their count.
\<close>

definition well_formed :: "script \<Rightarrow> bool" where
  "well_formed sc =
     (plain (company sc) \<and> plain (domain sc) \<and> plain (lsn sc) \<and> plain (ltn sc) \<and>
      correlation_format sc = ''LR_'' @ ltn sc @ ''_%d_%d_%d'' \<and>
      session_format sc = ''session_'' @ lsn sc @ ''_%d_%d'' \<and>
      dt_header_format sc =
        ''TSN=%s;LSN=%s;LTN=%s;VU=%d;SI=LoadRunner;PC=BizObs-Demo;AN='' @ company sc @ '';CID=%s'' \<and>
      list_all (\<lambda>st. plain (step_name st) \<and> plain (service_name st) \<and>
                     step_name st \<noteq> ''Full_Customer_Journey'') (steps sc) \<and>
      steps sc \<noteq> [] \<and>
      map step_number (steps sc) = map int [1 ..< Suc (length (steps sc))] \<and>
      total_steps sc = int (length (steps sc)))"

text \<open>What the log receives when a transaction is started or ended while the transactions
  \<open>opens\<close> are open.\<close>

definition start_event :: "string list \<Rightarrow> string \<Rightarrow> event" where
  "start_event opens n = (if n \<in> set opens then Transaction_Error n else Transaction_Started n)"

definition end_event :: "string list \<Rightarrow> string \<Rightarrow> lr_status \<Rightarrow> event" where
  "end_event opens n st = (if n \<in> set opens then Transaction_Ended n st else Transaction_Error n)"

text \<open>Between requests the client holds no header: the scripts add headers for one request at
  a time and never add an automatic one.\<close>

definition idle :: "vuser_state \<Rightarrow> bool" where
  "idle s = (pending_headers s = [] \<and> auto_headers s = [])"

text \<open>
  \<open>returned e k n\<close> is the number of requests, among the \<open>n\<close> requests from the \<open>k\<close>-th on,
  that return control to the script before the first that does not. The step requests of an
  iteration are its requests \<open>0, ..., N - 1\<close>, where \<open>N\<close> is the number of steps; all of
  them return (\<open>steps_return\<close>) exactly when \<open>steps_returned\<close> is \<open>N\<close>.
\<close>

definition returned :: "environment \<Rightarrow> nat \<Rightarrow> nat \<Rightarrow> nat" where
  "returned e k n =
     length (takeWhile (\<lambda>j. call_returns (continue_on_error e) (server e j)) [k ..< k + n])"

definition steps_returned :: "script \<Rightarrow> environment \<Rightarrow> nat" where
  "steps_returned sc e = returned e 0 (length (steps sc))"

definition steps_return :: "script \<Rightarrow> environment \<Rightarrow> bool" where
  "steps_return sc e =
     list_all (\<lambda>j. call_returns (continue_on_error e) (server e j)) [0 ..< length (steps sc)]"

text \<open>The four identifiers fit the buffers \<^verbatim>\<open>char correlation_id[64]\<close>,
  \<^verbatim>\<open>char customer_id[64]\<close>, \<^verbatim>\<open>char session_id[64]\<close> and \<^verbatim>\<open>char trace_id[64]\<close>.\<close>

definition identifiers_fit :: "vuser_state \<Rightarrow> bool" where
  "identifiers_fit s =
     (fits_buffer 64 (correlation_id s) \<and> fits_buffer 64 (customer_id s) \<and>
      fits_buffer 64 (session_id s) \<and> fits_buffer 64 (trace_id s))"

text \<open>The automatic headers that are left after the nine \<^verbatim>\<open>web_revert_auto_header\<close> calls
  of a step block.\<close>

definition revert_all :: "(string \<times> string) list \<Rightarrow> (string \<times> string) list" where
  "revert_all hs =
     filter (\<lambda>h. fst h \<notin> set [''x-dynatrace-test'', ''x-correlation-id'', ''x-customer-id'',
                                 ''x-session-id'', ''x-trace-id'', ''x-step-name'',
                                 ''x-customer-segment'', ''x-traffic-source'', ''x-test-iteration''])
       hs"

text \<open>
  The request a step block sends when no header is left over from earlier: its twelve headers
  and its body, with the parameters \<open>ps\<close> (in which the step has stored its name as \<open>TSN\<close>)
  and the cookies \<open>cs\<close> in the jar.
\<close>

definition tracing_value :: "script \<Rightarrow> environment \<Rightarrow> string \<Rightarrow> string \<Rightarrow> string" where
  "tracing_value sc e name cid =
     ''TSN='' @ name @ '';LSN='' @ lsn sc @ '';LTN='' @ ltn sc @ '';VU='' @ show_int (vuser_id e) @
     '';SI=LoadRunner;PC=BizObs-Demo;AN='' @ company sc @ '';CID='' @ cid"

definition step_headers ::
    "script \<Rightarrow> environment \<Rightarrow> step \<Rightarrow> (string \<rightharpoonup> string) \<Rightarrow> (string \<times> string) list" where
  "step_headers sc e st ps =
     [(''X-dynaTrace'', tracing_value sc e (step_name st) (param_text ps ''correlation_id'')),
      (''x-correlation-id'', param_text ps ''correlation_id''),
      (''x-customer-id'', param_text ps ''customer_id''),
      (''x-session-id'', param_text ps ''session_id''),
      (''x-trace-id'', param_text ps ''trace_id''),
      (''x-step-name'', step_name st),
      (''x-service-name'', service_name st),
      (''x-customer-segment'', param_text ps ''customer_segment''),
      (''x-traffic-source'', param_text ps ''traffic_source''),
      (''x-test-iteration'', subst_params ps None (param_text ps ''pIteration'')),
      (''Content-Type'', ''application/json''),
      (''User-Agent'', ''LoadRunner-BizObs-Agent/1.0'')]"

definition step_request ::
    "script \<Rightarrow> environment \<Rightarrow> step \<Rightarrow> (string \<rightharpoonup> string) \<Rightarrow> string list \<Rightarrow> request" where
  "step_request sc e st ps cs =
     \<lparr>req_name = step_name st @ ''_Journey_Step'', req_url = simulate_url, req_method = ''POST'',
      req_headers = step_headers sc e st (ps(''TSN'' \<mapsto> step_name st)), req_cookies = cs,
      req_body = json_subst (ps(''TSN'' \<mapsto> step_name st)) (step_body sc st)\<rparr>"

text \<open>The state in which the first step block starts: \<^verbatim>\<open>Action\<close> up to that point.\<close>

definition journey_start :: "script \<Rightarrow> environment \<Rightarrow> vuser_state \<Rightarrow> vuser_state" where
  "journey_start sc e =
     run [generate_ids sc e,
          lr_save_string (lsn sc) ''LSN'',
          lr_save_string (ltn sc) ''LTN'',
          lr_start_transaction ''Full_Customer_Journey'',
          (\<lambda>s. lr_output_message
                 (sprintf ''Starting journey for customer: {customer_name} ({customer_segment}) - Journey: %s''
                    [S (correlation_id s)]) s)]"

text \<open>The completion event request, sent with the parameters \<open>ps\<close>, the content \<open>dt\<close> of the
  buffer \<^verbatim>\<open>dt_test_header\<close> and the cookies \<open>cs\<close>.\<close>

definition completion_request ::
    "script \<Rightarrow> (string \<rightharpoonup> string) \<Rightarrow> string \<Rightarrow> string list \<Rightarrow> request" where
  "completion_request sc ps dt cs =
     \<lparr>req_name = ''Journey_Completion_Event'', req_url = simulate_url, req_method = ''POST'',
      req_headers =
        [(''x-dynatrace-test'', subst_params ps None dt),
         (''x-correlation-id'', param_text ps ''correlation_id''),
         (''Content-Type'', ''application/json'')],
      req_cookies = cs, req_body = json_subst ps (completion_body sc)\<rparr>"

text \<open>The verdict of \<open>check_response\<close> with the parameters \<open>ps\<close>.\<close>

definition verdict :: "(string \<rightharpoonup> string) \<Rightarrow> lr_status" where
  "verdict ps = (if atoi (param_text ps ''status'') \<ge> 400 then LR_FAIL else LR_PASS)"

fun received :: "event list \<Rightarrow> response list" where
  "received [] = []"
| "received (Request_Sent r resp # evs) = resp # received evs"
| "received (ev # evs) = received evs"

fun saved_params :: "event list \<Rightarrow> (string \<times> string) list" where
  "saved_params [] = []"
| "saved_params (Param_Saved n v # evs) = (n, v) # saved_params evs"
| "saved_params (ev # evs) = saved_params evs"

text \<open>The four identifiers held in the global buffers.\<close>

record identifiers =
  id_correlation :: string
  id_customer :: string
  id_session :: string
  id_trace :: string

definition identifiers_of :: "vuser_state \<Rightarrow> identifiers" where
  "identifiers_of s =
     \<lparr>id_correlation = correlation_id s, id_customer = customer_id s, id_session = session_id s,
      id_trace = trace_id s\<rparr>"

text \<open>
  The Identifier Generator as the specification words it: four strings computed from the worker
  id, the iteration number, one wall-clock value, the run label and the journey label.
\<close>

definition identifier_contract :: "string \<Rightarrow> string \<Rightarrow> int \<Rightarrow> int \<Rightarrow> int \<Rightarrow> identifiers" where
  "identifier_contract runLabel journeyLabel workerId iterationNumber wallClockSeconds =
     \<lparr>id_correlation =
        ''LR_'' @ runLabel @ ''_'' @ show_int workerId @ ''_'' @ show_int iterationNumber @ ''_'' @
        show_int wallClockSeconds,
      id_customer =
        ''customer_'' @ show_int workerId @ ''_'' @ show_int iterationNumber @ ''_'' @
        show_int (wallClockSeconds mod 10000),
      id_session =
        ''session_'' @ journeyLabel @ ''_'' @ show_int workerId @ ''_'' @ show_int iterationNumber,
      id_trace =
        ''trace_'' @
        (''LR_'' @ runLabel @ ''_'' @ show_int workerId @ ''_'' @ show_int iterationNumber @ ''_'' @
         show_int wallClockSeconds) @
        ''_'' @ show_int wallClockSeconds\<rparr>"

text \<open>Splitting a tracing header value into its \<open>key=value\<close> parts and reading the keys.\<close>

fun split_on :: "char \<Rightarrow> string \<Rightarrow> string list" where
  "split_on c [] = [[]]"
| "split_on c (x # xs) =
     (if x = c then [] # split_on c xs
      else (case split_on c xs of [] \<Rightarrow> [[x]] | y # ys \<Rightarrow> (x # y) # ys))"

definition header_keys :: "string \<Rightarrow> string list" where
  "header_keys v = map (takeWhile (\<lambda>c. c \<noteq> CHR ''='')) (split_on (CHR '';'') v)"

text \<open>The address that belongs to a customer name: lower case, the blank replaced by a dot.\<close>

definition lower_case :: "char \<Rightarrow> char" where
  "lower_case c =
     (case map_of (zip ''ABCDEFGHIJKLMNOPQRSTUVWXYZ'' ''abcdefghijklmnopqrstuvwxyz'') c of
        Some l \<Rightarrow> l
      | None \<Rightarrow> c)"

definition email_of_name :: "string \<Rightarrow> string" where
  "email_of_name name =
     map (\<lambda>c. if c = CHR '' '' then CHR ''.'' else lower_case c) name @ ''@email.com''"

subsection \<open>Concrete environments\<close>

text \<open>Virtual user 1 in its first iteration, the clock standing at one second, every request
  answered with status 200; ``continue on error'' is off, as it is by default.\<close>

definition calm_env :: environment where
  "calm_env =
     \<lparr>vuser_id = 1, iteration = 1, clock = (\<lambda>k. 1767707283),
      server = (\<lambda>k. Http_Response 200 []), rand_draw = (\<lambda>k. 0), continue_on_error = False\<rparr>"

text \<open>The same, with the clock moving to the next second before the third reading.\<close>

definition ticking_env :: environment where
  "ticking_env =
     \<lparr>vuser_id = 1, iteration = 1, clock = (\<lambda>k. if k < 2 then 1767707283 else 1767707284),
      server = (\<lambda>k. Http_Response 200 []), rand_draw = (\<lambda>k. 0), continue_on_error = False\<rparr>"

text \<open>Virtual user 250 in iteration 12000 of a long run.\<close>

definition busy_env :: environment where
  "busy_env =
     \<lparr>vuser_id = 250, iteration = 12000, clock = (\<lambda>k. 1767707283),
      server = (\<lambda>k. Http_Response 200 []), rand_draw = (\<lambda>k. 0), continue_on_error = False\<rparr>"

text \<open>A server that answers every request with status 500, in a scenario that runs with
  ``continue on error''.\<close>

definition failing_env :: environment where
  "failing_env =
     \<lparr>vuser_id = 1, iteration = 1, clock = (\<lambda>k. 1767707283),
      server = (\<lambda>k. Http_Response 500 []), rand_draw = (\<lambda>k. 0), continue_on_error = True\<rparr>"

text \<open>A server that answers the request of the second step with status 500 and every other
  request with status 200, in a scenario that runs without ``continue on error''.\<close>

definition aborting_env :: environment where
  "aborting_env =
     \<lparr>vuser_id = 1, iteration = 1, clock = (\<lambda>k. 1767707283),
      server = (\<lambda>k. if k = 1 then Http_Response 500 [] else Http_Response 200 []),
      rand_draw = (\<lambda>k. 0), continue_on_error = False\<rparr>"

text \<open>A virtual user of the Argos script after \<^verbatim>\<open>vuser_init\<close>.\<close>

definition started_vuser :: vuser_state where
  "started_vuser = vuser_init argos calm_env fresh_vuser"

section \<open>The effect of each statement on the state\<close>

lemma run_Nil [simp]: "run [] s = s"
  by (simp add: run_def)

lemma run_Cons [simp]: "run (f # fs) s = run fs (f s)"
  by (simp add: run_def)

lemma call_returns_iff: "call_returns c r \<longleftrightarrow> c \<or> \<not> request_failed r"
  by (simp add: call_returns_def)

lemma run_until_abort_running [simp]:
  "\<not> aborted s \<Longrightarrow> run_until_abort (f # fs) s = run_until_abort fs (f s)"
  by simp

lemma run_until_abort_aborted [simp]: "aborted s \<Longrightarrow> run_until_abort fs s = s"
  by (cases fs) simp_all

declare run_until_abort.simps(2) [simp del]

lemma emit_fields [simp]:
  "params (emit ev s) = params s"
  "pending_headers (emit ev s) = pending_headers s"
  "auto_headers (emit ev s) = auto_headers s"
  "cookies (emit ev s) = cookies s"
  "settings (emit ev s) = settings s"
  "open_transactions (emit ev s) = open_transactions s"
  "log (emit ev s) = log s @ [ev]"
  "dt_test_header (emit ev s) = dt_test_header s"
  "correlation_id (emit ev s) = correlation_id s"
  "customer_id (emit ev s) = customer_id s"
  "session_id (emit ev s) = session_id s"
  "trace_id (emit ev s) = trace_id s"
  "aborted (emit ev s) = aborted s"
  by (simp_all add: emit_def)

lemma lr_output_message_fields [simp]:
  "params (lr_output_message txt s) = params s"
  "pending_headers (lr_output_message txt s) = pending_headers s"
  "auto_headers (lr_output_message txt s) = auto_headers s"
  "cookies (lr_output_message txt s) = cookies s"
  "settings (lr_output_message txt s) = settings s"
  "open_transactions (lr_output_message txt s) = open_transactions s"
  "log (lr_output_message txt s) = log s @ [Output_Message txt]"
  "dt_test_header (lr_output_message txt s) = dt_test_header s"
  "correlation_id (lr_output_message txt s) = correlation_id s"
  "customer_id (lr_output_message txt s) = customer_id s"
  "session_id (lr_output_message txt s) = session_id s"
  "trace_id (lr_output_message txt s) = trace_id s"
  "aborted (lr_output_message txt s) = aborted s"
  by (simp_all add: lr_output_message_def)

lemma lr_error_message_fields [simp]:
  "params (lr_error_message txt s) = params s"
  "pending_headers (lr_error_message txt s) = pending_headers s"
  "auto_headers (lr_error_message txt s) = auto_headers s"
  "cookies (lr_error_message txt s) = cookies s"
  "settings (lr_error_message txt s) = settings s"
  "open_transactions (lr_error_message txt s) = open_transactions s"
  "log (lr_error_message txt s) = log s @ [Error_Message txt]"
  "dt_test_header (lr_error_message txt s) = dt_test_header s"
  "correlation_id (lr_error_message txt s) = correlation_id s"
  "customer_id (lr_error_message txt s) = customer_id s"
  "session_id (lr_error_message txt s) = session_id s"
  "trace_id (lr_error_message txt s) = trace_id s"
  "aborted (lr_error_message txt s) = aborted s"
  by (simp_all add: lr_error_message_def)

lemma lr_think_time_fields [simp]:
  "params (lr_think_time n s) = params s"
  "pending_headers (lr_think_time n s) = pending_headers s"
  "auto_headers (lr_think_time n s) = auto_headers s"
  "cookies (lr_think_time n s) = cookies s"
  "settings (lr_think_time n s) = settings s"
  "open_transactions (lr_think_time n s) = open_transactions s"
  "log (lr_think_time n s) = log s @ [Think_Time n]"
  "dt_test_header (lr_think_time n s) = dt_test_header s"
  "correlation_id (lr_think_time n s) = correlation_id s"
  "customer_id (lr_think_time n s) = customer_id s"
  "session_id (lr_think_time n s) = session_id s"
  "trace_id (lr_think_time n s) = trace_id s"
  "aborted (lr_think_time n s) = aborted s"
  by (simp_all add: lr_think_time_def)

lemma lr_save_string_fields [simp]:
  "params (lr_save_string v name s) = (params s)(name \<mapsto> v)"
  "pending_headers (lr_save_string v name s) = pending_headers s"
  "auto_headers (lr_save_string v name s) = auto_headers s"
  "cookies (lr_save_string v name s) = cookies s"
  "settings (lr_save_string v name s) = settings s"
  "open_transactions (lr_save_string v name s) = open_transactions s"
  "log (lr_save_string v name s) = log s @ [Param_Saved name v]"
  "dt_test_header (lr_save_string v name s) = dt_test_header s"
  "correlation_id (lr_save_string v name s) = correlation_id s"
  "customer_id (lr_save_string v name s) = customer_id s"
  "session_id (lr_save_string v name s) = session_id s"
  "trace_id (lr_save_string v name s) = trace_id s"
  "aborted (lr_save_string v name s) = aborted s"
  by (simp_all add: lr_save_string_def)

lemma lr_start_transaction_fields [simp]:
  "params (lr_start_transaction name s) = params s"
  "pending_headers (lr_start_transaction name s) = pending_headers s"
  "auto_headers (lr_start_transaction name s) = auto_headers s"
  "cookies (lr_start_transaction name s) = cookies s"
  "settings (lr_start_transaction name s) = settings s"
  "open_transactions (lr_start_transaction name s) = (if subst_params (params s) None name \<in> set (open_transactions s) then open_transactions s
      else subst_params (params s) None name # open_transactions s)"
  "log (lr_start_transaction name s) =
     log s @ [start_event (open_transactions s) (subst_params (params s) None name)]"
  "dt_test_header (lr_start_transaction name s) = dt_test_header s"
  "correlation_id (lr_start_transaction name s) = correlation_id s"
  "customer_id (lr_start_transaction name s) = customer_id s"
  "session_id (lr_start_transaction name s) = session_id s"
  "trace_id (lr_start_transaction name s) = trace_id s"
  "aborted (lr_start_transaction name s) = aborted s"
  by (simp_all add: lr_start_transaction_def Let_def lr_eval_string_def start_event_def)

lemma lr_end_transaction_fields [simp]:
  "params (lr_end_transaction name st s) = params s"
  "pending_headers (lr_end_transaction name st s) = pending_headers s"
  "auto_headers (lr_end_transaction name st s) = auto_headers s"
  "cookies (lr_end_transaction name st s) = cookies s"
  "settings (lr_end_transaction name st s) = settings s"
  "open_transactions (lr_end_transaction name st s) = removeAll (subst_params (params s) None name) (open_transactions s)"
  "log (lr_end_transaction name st s) =
     log s @ [end_event (open_transactions s) (subst_params (params s) None name) st]"
  "dt_test_header (lr_end_transaction name st s) = dt_test_header s"
  "correlation_id (lr_end_transaction name st s) = correlation_id s"
  "customer_id (lr_end_transaction name st s) = customer_id s"
  "session_id (lr_end_transaction name st s) = session_id s"
  "trace_id (lr_end_transaction name st s) = trace_id s"
  "aborted (lr_end_transaction name st s) = aborted s"
  by (simp_all add: lr_end_transaction_def Let_def lr_eval_string_def end_event_def)

lemma web_add_header_fields [simp]:
  "params (web_add_header name v s) = params s"
  "pending_headers (web_add_header name v s) = pending_headers s @ [(name, subst_params (params s) None v)]"
  "auto_headers (web_add_header name v s) = auto_headers s"
  "cookies (web_add_header name v s) = cookies s"
  "settings (web_add_header name v s) = settings s"
  "open_transactions (web_add_header name v s) = open_transactions s"
  "log (web_add_header name v s) = log s"
  "dt_test_header (web_add_header name v s) = dt_test_header s"
  "correlation_id (web_add_header name v s) = correlation_id s"
  "customer_id (web_add_header name v s) = customer_id s"
  "session_id (web_add_header name v s) = session_id s"
  "trace_id (web_add_header name v s) = trace_id s"
  "aborted (web_add_header name v s) = aborted s"
  by (simp_all add: web_add_header_def lr_eval_string_def)

lemma web_revert_auto_header_fields [simp]:
  "params (web_revert_auto_header name s) = params s"
  "pending_headers (web_revert_auto_header name s) = pending_headers s"
  "auto_headers (web_revert_auto_header name s) = filter (\<lambda>h. fst h \<noteq> name) (auto_headers s)"
  "cookies (web_revert_auto_header name s) = cookies s"
  "settings (web_revert_auto_header name s) = settings s"
  "open_transactions (web_revert_auto_header name s) = open_transactions s"
  "log (web_revert_auto_header name s) = log s"
  "dt_test_header (web_revert_auto_header name s) = dt_test_header s"
  "correlation_id (web_revert_auto_header name s) = correlation_id s"
  "customer_id (web_revert_auto_header name s) = customer_id s"
  "session_id (web_revert_auto_header name s) = session_id s"
  "trace_id (web_revert_auto_header name s) = trace_id s"
  "aborted (web_revert_auto_header name s) = aborted s"
  by (simp_all add: web_revert_auto_header_def)

lemma web_cleanup_cookies_fields [simp]:
  "params (web_cleanup_cookies s) = params s"
  "pending_headers (web_cleanup_cookies s) = pending_headers s"
  "auto_headers (web_cleanup_cookies s) = auto_headers s"
  "cookies (web_cleanup_cookies s) = []"
  "settings (web_cleanup_cookies s) = settings s"
  "open_transactions (web_cleanup_cookies s) = open_transactions s"
  "log (web_cleanup_cookies s) = log s @ [Cookies_Cleared]"
  "dt_test_header (web_cleanup_cookies s) = dt_test_header s"
  "correlation_id (web_cleanup_cookies s) = correlation_id s"
  "customer_id (web_cleanup_cookies s) = customer_id s"
  "session_id (web_cleanup_cookies s) = session_id s"
  "trace_id (web_cleanup_cookies s) = trace_id s"
  "aborted (web_cleanup_cookies s) = aborted s"
  by (simp_all add: web_cleanup_cookies_def)

lemma web_set_fields [simp]:
  "params (web_set key v s) = params s"
  "pending_headers (web_set key v s) = pending_headers s"
  "auto_headers (web_set key v s) = auto_headers s"
  "cookies (web_set key v s) = cookies s"
  "settings (web_set key v s) = AList.update key v (settings s)"
  "open_transactions (web_set key v s) = open_transactions s"
  "log (web_set key v s) = log s"
  "dt_test_header (web_set key v s) = dt_test_header s"
  "correlation_id (web_set key v s) = correlation_id s"
  "customer_id (web_set key v s) = customer_id s"
  "session_id (web_set key v s) = session_id s"
  "trace_id (web_set key v s) = trace_id s"
  "aborted (web_set key v s) = aborted s"
  by (simp_all add: web_set_def)

lemma web_custom_request_fields [simp]:
  "params (web_custom_request name url method body c resp s) = params s"
  "pending_headers (web_custom_request name url method body c resp s) = []"
  "auto_headers (web_custom_request name url method body c resp s) = auto_headers s"
  "cookies (web_custom_request name url method body c resp s) = cookies s @ response_cookies resp"
  "settings (web_custom_request name url method body c resp s) = settings s"
  "open_transactions (web_custom_request name url method body c resp s) = open_transactions s"
  "log (web_custom_request name url method body c resp s) = log s @ [Request_Sent
               \<lparr>req_name = subst_params (params s) None name, req_url = subst_params (params s) None url,
                req_method = method, req_headers = pending_headers s @ auto_headers s,
                req_cookies = cookies s, req_body = json_subst (params s) body\<rparr> resp]"
  "dt_test_header (web_custom_request name url method body c resp s) = dt_test_header s"
  "correlation_id (web_custom_request name url method body c resp s) = correlation_id s"
  "customer_id (web_custom_request name url method body c resp s) = customer_id s"
  "session_id (web_custom_request name url method body c resp s) = session_id s"
  "trace_id (web_custom_request name url method body c resp s) = trace_id s"
  "aborted (web_custom_request name url method body c resp s) = (aborted s \<or> \<not> call_returns c resp)"
  by (simp_all add: web_custom_request_def lr_eval_string_def)

text \<open>From here on \<open>lr_eval_string\<close> is always unfolded: what it returns depends on the
  parameters only.\<close>

declare lr_eval_string_def [simp]

section \<open>Facts about the text functions\<close>

lemma plain_Nil [simp]: "plain []"
  by (simp add: plain_def)

lemma plain_Cons [simp]:
  "plain (c # cs) = (c \<noteq> CHR ''{'' \<and> c \<noteq> CHR ''%'' \<and> c \<noteq> CHR '';'' \<and> plain cs)"
  by (auto simp: plain_def)

lemma plain_append [simp]: "plain (a @ b) = (plain a \<and> plain b)"
  by (auto simp: plain_def)

lemma is_digit_digit_char [simp]: "is_digit (digit_char d)"
proof -
  obtain k where k: "k = d mod 10" "k < 10" by simp
  from k(2) have "k \<in> {0,1,2,3,4,5,6,7,8,9}" by auto
  then show ?thesis unfolding digit_char_def is_digit_def k(1) [symmetric] by auto
qed

lemma digit_val_digit_char: "d < 10 \<Longrightarrow> digit_val (digit_char d) = int d"
proof -
  assume "d < 10"
  then have "d \<in> {0,1,2,3,4,5,6,7,8,9}" by auto
  then show ?thesis unfolding digit_char_def digit_val_def by auto
qed

lemma show_nat_digits: "list_all is_digit (show_nat n)"
proof (induction n rule: show_nat.induct)
  case (1 n)
  show ?case
  proof (cases "n < 10")
    case True
    then show ?thesis by (subst show_nat.simps) simp
  next
    case False
    then show ?thesis using 1 by (subst show_nat.simps) simp
  qed
qed

lemma show_nat_not_Nil: "show_nat n \<noteq> []"
  by (subst show_nat.simps) simp

lemma is_digit_not_special:
  "is_digit c \<Longrightarrow>
     c \<noteq> CHR ''{'' \<and> c \<noteq> CHR ''%'' \<and> c \<noteq> CHR '';'' \<and> c \<noteq> CHR ''_'' \<and> c \<noteq> CHR ''-'' \<and>
     c \<noteq> CHR ''+'' \<and> \<not> is_space c"
  by (auto simp: is_digit_def is_space_def)

lemma digits_plain: "list_all is_digit xs \<Longrightarrow> plain xs"
  by (induction xs) (simp_all add: is_digit_not_special)

lemma digits_no_underscore: "list_all is_digit xs \<Longrightarrow> CHR ''_'' \<notin> set xs"
  by (induction xs) (auto dest: is_digit_not_special)

lemma plain_show_int [simp]: "plain (show_int i)"
  by (simp add: show_int_def digits_plain show_nat_digits)

lemma show_int_no_underscore [simp]: "CHR ''_'' \<notin> set (show_int i)"
  by (simp add: show_int_def digits_no_underscore show_nat_digits)

lemma atoi_digits_append:
  "list_all is_digit xs \<Longrightarrow> atoi_digits acc (xs @ ys) = atoi_digits (atoi_digits acc xs) ys"
  by (induction xs arbitrary: acc) simp_all

lemma atoi_digits_show_nat: "atoi_digits 0 (show_nat n) = int n"
proof (induction n rule: show_nat.induct)
  case (1 n)
  show ?case
  proof (cases "n < 10")
    case True
    then show ?thesis by (subst show_nat.simps) (simp add: digit_val_digit_char)
  next
    case False
    then have ih: "atoi_digits 0 (show_nat (n div 10)) = int (n div 10)"
      using 1 by simp
    have "atoi_digits 0 (show_nat (n div 10) @ [digit_char (n mod 10)]) =
          10 * int (n div 10) + int (n mod 10)"
      by (simp add: atoi_digits_append show_nat_digits ih digit_val_digit_char)
    also have "\<dots> = int n"
      by (simp add: zdiv_int zmod_int)
    finally show ?thesis using False by (subst show_nat.simps) simp
  qed
qed

text \<open>\<^verbatim>\<open>atoi\<close> reads back what \<^verbatim>\<open>%d\<close> printed.\<close>

lemma atoi_show_int: "atoi (show_int i) = i"
proof (cases "i < 0")
  case True
  then show ?thesis
    by (simp add: show_int_def atoi_def is_space_def atoi_digits_show_nat)
next
  case False
  obtain c cs where cs: "show_nat (nat i) = c # cs"
    using show_nat_not_Nil [of "nat i"] by (cases "show_nat (nat i)") auto
  have "is_digit c"
    using show_nat_digits [of "nat i"] by (simp add: cs)
  then have "dropWhile is_space (c # cs) = c # cs" "c \<noteq> CHR ''-''" "c \<noteq> CHR ''+''"
    by (simp_all add: is_digit_not_special)
  then have "atoi (c # cs) = atoi_digits 0 (c # cs)"
    by (simp add: atoi_def)
  also have "\<dots> = int (nat i)"
    using atoi_digits_show_nat [of "nat i"] by (simp add: cs)
  finally show ?thesis using False by (simp add: show_int_def cs)
qed

lemma show_int_inject: "show_int i = show_int j \<Longrightarrow> i = j"
  by (metis atoi_show_int)

lemma split_at_underscore:
  "CHR ''_'' \<notin> set a \<Longrightarrow> CHR ''_'' \<notin> set b \<Longrightarrow> a @ CHR ''_'' # x = b @ CHR ''_'' # y \<Longrightarrow>
     a = b \<and> x = y"
proof (induction a arbitrary: b)
  case Nil
  then show ?case by (cases b) auto
next
  case (Cons c a)
  then show ?case by (cases b) auto
qed

lemma sprintf_Cons_plain: "c \<noteq> CHR ''%'' \<Longrightarrow> sprintf (c # cs) args = c # sprintf cs args"
  by (cases cs) simp_all

lemma sprintf_append_plain: "plain a \<Longrightarrow> sprintf (a @ b) args = a @ sprintf b args"
  by (induction a) (simp_all add: sprintf_Cons_plain)

lemma subst_params_append_plain:
  "plain a \<Longrightarrow> subst_params ps None (a @ b) = a @ subst_params ps None b"
  by (induction a) simp_all

lemma subst_params_plain [simp]: "plain a \<Longrightarrow> subst_params ps None a = a"
  using subst_params_append_plain [of a ps "[]"] by simp

text \<open>A text that is exactly one parameter reference.\<close>

lemma subst_params_name:
  "CHR ''{'' \<notin> set n \<Longrightarrow> CHR ''}'' \<notin> set n \<Longrightarrow>
     subst_params ps (Some m) (n @ ''}'') = param_text ps (m @ n)"
  by (induction n arbitrary: m) auto

lemma param_text_upd [simp]:
  "param_text (ps(k \<mapsto> v)) n = (if n = k then v else param_text ps n)"
  by (simp add: param_text_def)

lemma well_formed_plain:
  "well_formed sc \<Longrightarrow> plain (company sc)" "well_formed sc \<Longrightarrow> plain (domain sc)"
  "well_formed sc \<Longrightarrow> plain (lsn sc)" "well_formed sc \<Longrightarrow> plain (ltn sc)"
  by (simp_all add: well_formed_def)

lemma well_formed_dt_header:
  "well_formed sc \<Longrightarrow>
   sprintf (dt_header_format sc) [S a, S b, S c, I v, S d] =
     ''TSN='' @ a @ '';LSN='' @ b @ '';LTN='' @ c @ '';VU='' @ show_int v @
     '';SI=LoadRunner;PC=BizObs-Demo;AN='' @ company sc @ '';CID='' @ d"
  by (simp add: well_formed_def sprintf_append_plain sprintf_Cons_plain)

lemma split_on_plain: "c \<notin> set a \<Longrightarrow> split_on c a = [a]"
  by (induction a) auto

lemma split_on_append: "c \<notin> set a \<Longrightarrow> split_on c (a @ c # rest) = a # split_on c rest"
  by (induction a) auto


section \<open>Virtual-user initialisation\<close>

lemma customer_catalogue_lengths:
  "length customer_names = 16" "length customer_emails = 16"
  "length customer_segments = 6" "length traffic_sources = 8"
  by (simp_all add: customer_names_def customer_emails_def customer_segments_def
        traffic_sources_def)

lemma emails_match_names: "map email_of_name customer_names = customer_emails"
  by (simp add: customer_names_def customer_emails_def email_of_name_def lower_case_def)

lemma vuser_init_params:
  "params (vuser_init sc e s) =
     (params s)(''LSN'' \<mapsto> ''BizObs-Journey-LoadTest'', ''LTN'' \<mapsto> init_ltn sc,
        ''customer_name'' \<mapsto> customer_names ! (rand_draw e 0 mod 16),
        ''customer_email'' \<mapsto> customer_emails ! (rand_draw e 0 mod 16),
        ''customer_segment'' \<mapsto> customer_segments ! (rand_draw e 1 mod 6),
        ''traffic_source'' \<mapsto> traffic_sources ! (rand_draw e 2 mod 8))"
  by (simp add: vuser_init_def Let_def)

text \<open>
  Claim C10. \<^verbatim>\<open>vuser_init\<close> draws one index below 16 and stores the name and the e-mail
  address found at that index of the two 16-entry catalogues, so the address is the one that
  belongs to the name (the name in lower case with a dot for the blank, at \<^verbatim>\<open>email.com\<close>).
  The segment and the traffic source come from two further draws of their own.
\<close>

theorem vuser_init_name_and_email_share_index:
  "params (vuser_init sc e s) ''customer_name'' = Some (customer_names ! (rand_draw e 0 mod 16)) \<and>
   params (vuser_init sc e s) ''customer_email'' = Some (customer_emails ! (rand_draw e 0 mod 16)) \<and>
   rand_draw e 0 mod 16 < length customer_names \<and>
   length customer_names = 16 \<and> length customer_emails = 16 \<and>
   customer_emails ! (rand_draw e 0 mod 16) =
     email_of_name (customer_names ! (rand_draw e 0 mod 16)) \<and>
   params (vuser_init sc e s) ''customer_segment'' =
     Some (customer_segments ! (rand_draw e 1 mod 6)) \<and>
   params (vuser_init sc e s) ''traffic_source'' =
     Some (traffic_sources ! (rand_draw e 2 mod 8))"
proof -
  have i: "rand_draw e 0 mod 16 < length customer_names"
    by (simp add: customer_catalogue_lengths)
  have "customer_emails ! (rand_draw e 0 mod 16) =
        map email_of_name customer_names ! (rand_draw e 0 mod 16)"
    by (simp only: emails_match_names)
  also have "\<dots> = email_of_name (customer_names ! (rand_draw e 0 mod 16))"
    using i by (rule nth_map)
  finally have m: "customer_emails ! (rand_draw e 0 mod 16) =
      email_of_name (customer_names ! (rand_draw e 0 mod 16))" .
  show ?thesis
    using i m by (simp add: vuser_init_params customer_catalogue_lengths)
qed

section \<open>The identifier generator\<close>

lemma argos_well_formed: "well_formed argos"
  by (simp add: well_formed_def argos_def argos_steps_def)

lemma argos_short_well_formed: "well_formed argos_short"
  by (simp add: well_formed_def argos_short_def)

lemma bt_well_formed: "well_formed bt"
  by (simp add: well_formed_def bt_def)

lemma scripts_well_formed: "sc \<in> set scripts \<Longrightarrow> well_formed sc"
  using argos_well_formed argos_short_well_formed bt_well_formed by (auto simp: scripts_def)

lemma generate_ids_correlation_id:
  "well_formed sc \<Longrightarrow>
   correlation_id (generate_ids sc e s) =
     ''LR_'' @ ltn sc @ ''_'' @ show_int (vuser_id e) @ ''_'' @ show_int (iteration e) @ ''_'' @
     show_int (clock e 0)"
  by (simp add: generate_ids_def well_formed_def sprintf_append_plain sprintf_Cons_plain)

lemma generate_ids_customer_id:
  "customer_id (generate_ids sc e s) =
     ''customer_'' @ show_int (vuser_id e) @ ''_'' @ show_int (iteration e) @ ''_'' @
     show_int (c_rem (clock e 1) 10000)"
  by (simp add: generate_ids_def)

lemma generate_ids_session_id:
  "well_formed sc \<Longrightarrow>
   session_id (generate_ids sc e s) =
     ''session_'' @ lsn sc @ ''_'' @ show_int (vuser_id e) @ ''_'' @ show_int (iteration e)"
  by (simp add: generate_ids_def well_formed_def sprintf_append_plain sprintf_Cons_plain)

lemma generate_ids_trace_id:
  "trace_id (generate_ids sc e s) =
     ''trace_'' @ correlation_id (generate_ids sc e s) @ ''_'' @ show_int (clock e 2)"
  by (simp add: generate_ids_def)

lemma c_rem_nonneg: "0 \<le> t \<Longrightarrow> c_rem t 10000 = t mod 10000"
  by (simp add: c_rem_def)

lemma argos_labels:
  "ltn argos = ''Argos_LoadTest_20260106''" "lsn argos = ''BizObs_Argos_www.Argos.co.uk_Journey''"
  by (simp_all add: argos_def)

text \<open>
  Claim C3, as amended. The generator reads the clock once for each identifier that carries a
  time: the correlation id is \<open>LR_\<close>, the run label, the worker id, the iteration number and
  the first reading, joined by underscores; the customer id is \<open>customer_\<close>, the worker id, the
  iteration number and the remainder of the second reading by 10000 (C's remainder); the
  session id is \<open>session_\<close>, the journey label, the worker id and the iteration number; the
  trace id is \<open>trace_\<close>, the correlation id and the third reading. Nothing else enters. When
  the three readings are the same second \<open>t\<close>, not negative, these are the four strings of
  the specification for \<open>t\<close>. This is stated for the inputs for which each of the four
  strings fits its 64-byte buffer; for the others see claim C9.
\<close>

theorem generate_ids_strings:
  "sc \<in> set scripts \<Longrightarrow> identifiers_fit (generate_ids sc e s) \<Longrightarrow>
   identifiers_of (generate_ids sc e s) =
     \<lparr>id_correlation =
        ''LR_'' @ ltn sc @ ''_'' @ show_int (vuser_id e) @ ''_'' @ show_int (iteration e) @ ''_'' @
        show_int (clock e 0),
      id_customer =
        ''customer_'' @ show_int (vuser_id e) @ ''_'' @ show_int (iteration e) @ ''_'' @
        show_int (c_rem (clock e 1) 10000),
      id_session =
        ''session_'' @ lsn sc @ ''_'' @ show_int (vuser_id e) @ ''_'' @ show_int (iteration e),
      id_trace =
        ''trace_'' @
        (''LR_'' @ ltn sc @ ''_'' @ show_int (vuser_id e) @ ''_'' @ show_int (iteration e) @ ''_'' @
         show_int (clock e 0)) @
        ''_'' @ show_int (clock e 2)\<rparr> \<and>
   (clock e 0 = t \<and> clock e 1 = t \<and> clock e 2 = t \<and> 0 \<le> t \<longrightarrow>
      identifiers_of (generate_ids sc e s) =
        identifier_contract (ltn sc) (lsn sc) (vuser_id e) (iteration e) t)"
proof -
  assume "sc \<in> set scripts"
  then have wf: "well_formed sc" by (rule scripts_well_formed)
  show ?thesis
    by (simp add: identifiers_of_def identifier_contract_def generate_ids_trace_id
          generate_ids_correlation_id [OF wf] generate_ids_session_id [OF wf]
          generate_ids_customer_id c_rem_nonneg)
qed

lemma calm_identifiers_fit: "identifiers_fit (generate_ids argos calm_env fresh_vuser)"
  by (simp add: identifiers_fit_def fits_buffer_def generate_ids_trace_id generate_ids_customer_id
        generate_ids_correlation_id [OF argos_well_formed]
        generate_ids_session_id [OF argos_well_formed] argos_labels calm_env_def c_rem_def
        show_int_def show_nat.simps digit_char_def)

theorem generate_ids_strings_witness:
  "argos \<in> set scripts \<and> identifiers_fit (generate_ids argos calm_env fresh_vuser) \<and>
   clock calm_env 0 = 1767707283 \<and> clock calm_env 1 = 1767707283 \<and>
   clock calm_env 2 = 1767707283 \<and>
   identifiers_of (generate_ids argos calm_env fresh_vuser) =
     identifier_contract ''Argos_LoadTest_20260106'' ''BizObs_Argos_www.Argos.co.uk_Journey''
       1 1 1767707283"
proof -
  have a: "argos \<in> set scripts" by (simp add: scripts_def)
  note f = calm_identifiers_fit
  have c: "clock calm_env 0 = 1767707283 \<and> clock calm_env 1 = 1767707283 \<and>
           clock calm_env 2 = 1767707283 \<and> (0::int) \<le> 1767707283"
    by (simp add: calm_env_def)
  have v: "vuser_id calm_env = 1" "iteration calm_env = 1" by (simp_all add: calm_env_def)
  from generate_ids_strings [OF a f, of 1767707283] c
  have "identifiers_of (generate_ids argos calm_env fresh_vuser) =
        identifier_contract (ltn argos) (lsn argos) (vuser_id calm_env) (iteration calm_env)
          1767707283"
    by blast
  then show ?thesis using a c f by (simp add: v argos_labels)
qed

text \<open>
  Claim C3 as stated fails when the second changes between the readings: with the first two
  readings at 1767707283 and the third at 1767707284 the trace id ends in
  \<open>_1767707283_1767707284\<close>, and the four strings are those of the specification for neither
  of the two seconds. All four strings fit their buffers here.
\<close>

theorem generate_ids_clock_tick:
  "identifiers_of (generate_ids argos ticking_env fresh_vuser) \<noteq>
     identifier_contract (ltn argos) (lsn argos) (vuser_id ticking_env) (iteration ticking_env)
       1767707283 \<and>
   identifiers_of (generate_ids argos ticking_env fresh_vuser) \<noteq>
     identifier_contract (ltn argos) (lsn argos) (vuser_id ticking_env) (iteration ticking_env)
       1767707284 \<and>
   id_trace (identifiers_of (generate_ids argos ticking_env fresh_vuser)) =
     ''trace_LR_Argos_LoadTest_20260106_1_1_1767707283_1767707284'' \<and>
   identifiers_fit (generate_ids argos ticking_env fresh_vuser)"
  by (simp add: identifiers_of_def identifier_contract_def generate_ids_trace_id
        generate_ids_correlation_id [OF argos_well_formed]
        generate_ids_session_id [OF argos_well_formed] generate_ids_customer_id
        ticking_env_def argos_labels show_int_def show_nat.simps digit_char_def c_rem_def
        identifiers_fit_def fits_buffer_def)

text \<open>
  Claim C4. Within one script (one run label), two iterations that differ in the worker id or
  in the iteration number get different correlation ids, whatever the clock shows in either.
\<close>

theorem correlation_ids_distinct:
  "sc \<in> set scripts \<Longrightarrow>
   (vuser_id e, iteration e) \<noteq> (vuser_id e', iteration e') \<Longrightarrow>
   correlation_id (generate_ids sc e s) \<noteq> correlation_id (generate_ids sc e' s')"
proof
  assume sc: "sc \<in> set scripts"
    and ne: "(vuser_id e, iteration e) \<noteq> (vuser_id e', iteration e')"
    and eq: "correlation_id (generate_ids sc e s) = correlation_id (generate_ids sc e' s')"
  have wf: "well_formed sc" using sc by (rule scripts_well_formed)
  from eq have
    "show_int (vuser_id e) @ CHR ''_'' # (show_int (iteration e) @ CHR ''_'' # show_int (clock e 0)) =
     show_int (vuser_id e') @ CHR ''_'' # (show_int (iteration e') @ CHR ''_'' # show_int (clock e' 0))"
    by (simp add: generate_ids_correlation_id [OF wf])
  then have v: "show_int (vuser_id e) = show_int (vuser_id e')"
    and rest: "show_int (iteration e) @ CHR ''_'' # show_int (clock e 0) =
               show_int (iteration e') @ CHR ''_'' # show_int (clock e' 0)"
    using split_at_underscore [OF show_int_no_underscore show_int_no_underscore] by blast+
  from rest have i: "show_int (iteration e) = show_int (iteration e')"
    using split_at_underscore [OF show_int_no_underscore show_int_no_underscore] by blast
  from v i have "vuser_id e = vuser_id e'" "iteration e = iteration e'"
    by (auto dest: show_int_inject)
  with ne show False by simp
qed

theorem correlation_ids_distinct_witness:
  "argos \<in> set scripts \<and>
   (vuser_id calm_env, iteration calm_env) \<noteq> (vuser_id busy_env, iteration busy_env) \<and>
   correlation_id (generate_ids argos calm_env fresh_vuser) \<noteq>
     correlation_id (generate_ids argos busy_env fresh_vuser)"
proof -
  have a: "argos \<in> set scripts" by (simp add: scripts_def)
  have n: "(vuser_id calm_env, iteration calm_env) \<noteq> (vuser_id busy_env, iteration busy_env)"
    by (simp add: calm_env_def busy_env_def)
  show ?thesis
    using a n correlation_ids_distinct [OF a n, of fresh_vuser fresh_vuser] by simp
qed

lemma trace_id_length:
  "length (trace_id (generate_ids argos e s)) =
     36 + length (show_int (vuser_id e)) + length (show_int (iteration e)) +
     length (show_int (clock e 0)) + length (show_int (clock e 2))"
  by (simp add: generate_ids_trace_id generate_ids_correlation_id [OF argos_well_formed]
        argos_labels)

text \<open>With clock values of ten digits, as they have been since 2001, the trace id of the Argos
  script fits its buffer exactly when worker id and iteration number have at most seven
  characters together.\<close>

lemma trace_id_fits_iff:
  "length (show_int (clock e 0)) = 10 \<Longrightarrow> length (show_int (clock e 2)) = 10 \<Longrightarrow>
   fits_buffer 64 (trace_id (generate_ids argos e s)) \<longleftrightarrow>
     length (show_int (vuser_id e)) + length (show_int (iteration e)) \<le> 7"
  by (auto simp: fits_buffer_def trace_id_length)

text \<open>
  Claim C9 does not hold of the code. For virtual user 250 in iteration 12000 on 6 January 2026
  the trace id has 64 characters; with its terminating NUL it needs 65 bytes, one more than
  \<^verbatim>\<open>char trace_id[64]\<close> has.
\<close>

theorem trace_id_exceeds_buffer:
  "trace_id (generate_ids argos busy_env s) =
     ''trace_LR_Argos_LoadTest_20260106_250_12000_1767707283_1767707283'' \<and>
   length (trace_id (generate_ids argos busy_env s)) = 64 \<and>
   \<not> fits_buffer 64 (trace_id (generate_ids argos busy_env s))"
  by (simp add: generate_ids_trace_id generate_ids_correlation_id [OF argos_well_formed]
        busy_env_def argos_labels show_int_def show_nat.simps digit_char_def fits_buffer_def)

section \<open>One step\<close>

lemma sent_requests_append [simp]:
  "sent_requests (xs @ ys) = sent_requests xs @ sent_requests ys"
  by (induction xs rule: sent_requests.induct) simp_all

lemma transaction_results_append [simp]:
  "transaction_results (xs @ ys) = transaction_results xs @ transaction_results ys"
  by (induction xs rule: transaction_results.induct) simp_all

lemma sent_requests_start_event [simp]: "sent_requests (start_event opens n # evs) = sent_requests evs"
  by (simp add: start_event_def)

lemma sent_requests_end_event [simp]: "sent_requests (end_event opens n st # evs) = sent_requests evs"
  by (simp add: end_event_def)

lemma transaction_results_start_event [simp]:
  "transaction_results (start_event opens n # evs) = transaction_results evs"
  by (simp add: start_event_def)

lemma transaction_results_end_event [simp]:
  "transaction_results (end_event opens n st # evs) =
     (if n \<in> set opens then [(n, st)] else []) @ transaction_results evs"
  by (simp add: end_event_def)

lemma new_events_append [simp]: "new_events s (s'\<lparr>log := log s @ evs\<rparr>) = evs"
  by (simp add: new_events_def)

lemma new_events_eq: "log s' = log s @ evs \<Longrightarrow> new_events s s' = evs"
  by (simp add: new_events_def)

lemma check_response_fields [simp]:
  "params (check_response st s) = params s"
  "pending_headers (check_response st s) = pending_headers s"
  "auto_headers (check_response st s) = auto_headers s"
  "cookies (check_response st s) = cookies s"
  "settings (check_response st s) = settings s"
  "open_transactions (check_response st s) =
     removeAll (subst_params (params s) None (step_name st)) (open_transactions s)"
  "dt_test_header (check_response st s) = dt_test_header s"
  "correlation_id (check_response st s) = correlation_id s"
  "customer_id (check_response st s) = customer_id s"
  "session_id (check_response st s) = session_id s"
  "trace_id (check_response st s) = trace_id s"
  "aborted (check_response st s) = aborted s"
  by (simp_all add: check_response_def)

lemma check_response_log [simp]:
  "log (check_response st s) =
     log s @
     (if atoi (subst_params (params s) None ''{status}'') \<ge> 400
      then [Error_Message (sprintf (''Step '' @ step_name st @ '' failed with status: %s'')
                             [S (subst_params (params s) None ''{status}'')])]
      else []) @
     [end_event (open_transactions s) (subst_params (params s) None (step_name st))
        (if atoi (subst_params (params s) None ''{status}'') \<ge> 400 then LR_FAIL else LR_PASS)]"
  by (simp add: check_response_def)

lemma saved_params_append [simp]:
  "saved_params (xs @ ys) = saved_params xs @ saved_params ys"
  by (induction xs rule: saved_params.induct) simp_all

lemma saved_params_start_event [simp]: "saved_params (start_event opens n # evs) = saved_params evs"
  by (simp add: start_event_def)

lemma saved_params_end_event [simp]: "saved_params (end_event opens n st # evs) = saved_params evs"
  by (simp add: end_event_def)

lemma received_append [simp]: "received (xs @ ys) = received xs @ received ys"
  by (induction xs rule: received.induct) simp_all

lemma received_start_event [simp]: "received (start_event opens n # evs) = received evs"
  by (simp add: start_event_def)

lemma received_end_event [simp]: "received (end_event opens n st # evs) = received evs"
  by (simp add: end_event_def)

text \<open>A step block does nothing in an aborted virtual user, and it leaves the virtual user
  aborted exactly when its request does not return.\<close>

lemma execute_step_aborted [simp]: "aborted s \<Longrightarrow> execute_step sc e st r s = s"
  by (simp add: execute_step_def)

lemma execute_step_aborts [simp]:
  "aborted (execute_step sc e st r s) = (aborted s \<or> \<not> call_returns (continue_on_error e) r)"
  by (cases "aborted s"; cases "call_returns (continue_on_error e) r")
     (simp_all add: execute_step_def)

lemma execute_step_params [simp]:
  "\<not> aborted s \<Longrightarrow> params (execute_step sc e st r s) = (params s)(''TSN'' \<mapsto> step_name st)"
  by (cases "call_returns (continue_on_error e) r") (simp_all add: execute_step_def)

lemma execute_step_other_params:
  "n \<noteq> ''TSN'' \<Longrightarrow> params (execute_step sc e st r s) n = params s n"
  by (cases "aborted s") simp_all

lemma execute_step_pending_headers [simp]:
  "\<not> aborted s \<Longrightarrow> pending_headers (execute_step sc e st r s) = []"
  by (cases "call_returns (continue_on_error e) r") (simp_all add: execute_step_def)

lemma execute_step_cookies [simp]:
  "\<not> aborted s \<Longrightarrow> call_returns (continue_on_error e) r \<Longrightarrow>
   cookies (execute_step sc e st r s) = []"
  by (simp add: execute_step_def)

lemma execute_step_buffers [simp]:
  "correlation_id (execute_step sc e st r s) = correlation_id s"
  "customer_id (execute_step sc e st r s) = customer_id s"
  "session_id (execute_step sc e st r s) = session_id s"
  "trace_id (execute_step sc e st r s) = trace_id s"
  "settings (execute_step sc e st r s) = settings s"
  by (cases "aborted s"; cases "call_returns (continue_on_error e) r";
      simp add: execute_step_def)+

lemma execute_step_dt_test_header:
  "well_formed sc \<Longrightarrow> \<not> aborted s \<Longrightarrow>
   dt_test_header (execute_step sc e st r s) = tracing_value sc e (step_name st) ''{correlation_id}''"
  by (cases "call_returns (continue_on_error e) r")
     (simp_all add: execute_step_def well_formed_dt_header tracing_value_def)

lemma execute_step_auto_headers [simp]:
  "\<not> aborted s \<Longrightarrow> call_returns (continue_on_error e) r \<Longrightarrow>
   auto_headers (execute_step sc e st r s) = revert_all (auto_headers s)"
  by (simp add: execute_step_def revert_all_def conj_commute conj_left_commute)

lemma execute_step_auto_headers_stopped:
  "\<not> aborted s \<Longrightarrow> \<not> call_returns (continue_on_error e) r \<Longrightarrow>
   auto_headers (execute_step sc e st r s) = auto_headers s"
  by (simp add: execute_step_def)

lemma execute_step_open_transactions:
  "plain (step_name st) \<Longrightarrow> \<not> aborted s \<Longrightarrow> call_returns (continue_on_error e) r \<Longrightarrow>
   open_transactions (execute_step sc e st r s) = removeAll (step_name st) (open_transactions s)"
  by (simp add: execute_step_def)

lemma execute_step_log_extends: "\<exists>evs. log (execute_step sc e st r s) = log s @ evs"
  by (cases "aborted s"; cases "call_returns (continue_on_error e) r")
     (simp_all add: execute_step_def)

text \<open>The request of a step block goes out whether or not it returns.\<close>

lemma execute_step_requests:
  "well_formed sc \<Longrightarrow> plain (step_name st) \<Longrightarrow> plain (service_name st) \<Longrightarrow> \<not> aborted s \<Longrightarrow>
   sent_requests (new_events s (execute_step sc e st r s)) =
     [(step_request sc e st (params s) (cookies s))
        \<lparr>req_headers :=
           pending_headers s @ step_headers sc e st ((params s)(''TSN'' \<mapsto> step_name st)) @
           auto_headers s\<rparr>]"
  by (cases "call_returns (continue_on_error e) r")
     (simp_all add: execute_step_def new_events_def well_formed_dt_header well_formed_plain
        step_request_def step_headers_def tracing_value_def subst_params_append_plain
        simulate_url_def)

text \<open>The transaction of a step is closed by the check that follows the request; when the
  request does not return, the check is not reached and the script records no result.\<close>

lemma execute_step_results:
  "plain (step_name st) \<Longrightarrow> \<not> aborted s \<Longrightarrow> call_returns (continue_on_error e) r \<Longrightarrow>
   transaction_results (new_events s (execute_step sc e st r s)) =
     [(step_name st, verdict (params s))]"
  by (simp add: execute_step_def new_events_def verdict_def)

lemma execute_step_results_stopped:
  "\<not> aborted s \<Longrightarrow> \<not> call_returns (continue_on_error e) r \<Longrightarrow>
   transaction_results (new_events s (execute_step sc e st r s)) = []"
  by (simp add: execute_step_def new_events_def)

lemma execute_step_saved_params:
  "\<not> aborted s \<Longrightarrow>
   saved_params (new_events s (execute_step sc e st r s)) = [(''TSN'', step_name st)]"
  by (cases "call_returns (continue_on_error e) r")
     (simp_all add: execute_step_def new_events_def)

lemma execute_step_received:
  "\<not> aborted s \<Longrightarrow> received (new_events s (execute_step sc e st r s)) = [r]"
  by (cases "call_returns (continue_on_error e) r")
     (simp_all add: execute_step_def new_events_def)

section \<open>The sequence of steps\<close>

lemma idle_execute_step: "idle s \<Longrightarrow> idle (execute_step sc e st r s)"
  by (cases "aborted s"; cases "call_returns (continue_on_error e) r")
     (simp_all add: idle_def revert_all_def execute_step_auto_headers_stopped)

lemma new_events_trans:
  "log s1 = log s @ a \<Longrightarrow> log s2 = log s1 @ b \<Longrightarrow> new_events s s2 = new_events s s1 @ new_events s1 s2"
  by (simp add: new_events_def)

lemma new_events_same [simp]: "new_events s s = []"
  by (simp add: new_events_def)

lemma run_steps_aborted [simp]: "aborted s \<Longrightarrow> run_steps sc e k sts s = s"
  by (induction sts arbitrary: k) simp_all

lemma returned_0 [simp]: "returned e k 0 = 0"
  by (simp add: returned_def)

lemma returned_Suc:
  "returned e k (Suc n) =
     (if call_returns (continue_on_error e) (server e k) then Suc (returned e (Suc k) n) else 0)"
proof -
  have "[k ..< k + Suc n] = k # [Suc k ..< Suc k + n]"
    by (subst upt_rec) simp
  then show ?thesis
    by (simp add: returned_def)
qed

lemma returned_le: "returned e k n \<le> n"
  by (induction n arbitrary: k) (simp_all add: returned_Suc)

lemma returned_all_Suc:
  "returned e k (Suc n) = Suc n \<longleftrightarrow>
     call_returns (continue_on_error e) (server e k) \<and> returned e (Suc k) n = n"
  by (simp add: returned_Suc)

text \<open>The request on which the count stops is one that does not return.\<close>

lemma returned_stops:
  "returned e k n < n \<Longrightarrow> \<not> call_returns (continue_on_error e) (server e (k + returned e k n))"
proof (induction n arbitrary: k)
  case 0
  then show ?case by simp
next
  case (Suc n)
  show ?case
  proof (cases "call_returns (continue_on_error e) (server e k)")
    case True
    then have "returned e (Suc k) n < n"
      using Suc.prems by (simp add: returned_Suc)
    then show ?thesis
      using Suc.IH [of "Suc k"] True by (simp add: returned_Suc)
  next
    case False
    then show ?thesis by (simp add: returned_Suc)
  qed
qed

lemma run_steps_aborts:
  "\<not> aborted s \<Longrightarrow>
   aborted (run_steps sc e k sts s) = (returned e k (length sts) < length sts)"
proof (induction sts arbitrary: k s)
  case Nil
  then show ?case by simp
next
  case (Cons st sts)
  show ?case
  proof (cases "call_returns (continue_on_error e) (server e k)")
    case True
    then show ?thesis
      using Cons.IH [of "execute_step sc e st (server e k) s" "Suc k"] Cons.prems
      by (simp add: returned_Suc)
  next
    case False
    then show ?thesis
      using Cons.prems by (simp add: returned_Suc)
  qed
qed

lemma run_steps_log_extends: "\<exists>evs. log (run_steps sc e k sts s) = log s @ evs"
proof (induction sts arbitrary: k s)
  case Nil
  then show ?case by simp
next
  case (Cons st sts)
  obtain a where a: "log (execute_step sc e st (server e k) s) = log s @ a"
    using execute_step_log_extends by blast
  obtain b where b: "log (run_steps sc e (Suc k) sts (execute_step sc e st (server e k) s)) =
      log (execute_step sc e st (server e k) s) @ b"
    using Cons.IH by blast
  show ?case by (simp add: a b)
qed

lemma run_steps_new_events:
  "new_events s (run_steps sc e k sts (execute_step sc e st r s)) =
     new_events s (execute_step sc e st r s) @
     new_events (execute_step sc e st r s) (run_steps sc e k sts (execute_step sc e st r s))"
proof -
  obtain a where a: "log (execute_step sc e st r s) = log s @ a"
    using execute_step_log_extends by blast
  obtain b where b: "log (run_steps sc e k sts (execute_step sc e st r s)) =
      log (execute_step sc e st r s) @ b"
    using run_steps_log_extends by blast
  show ?thesis using new_events_trans [OF a b] by simp
qed

lemma run_steps_params:
  "n \<noteq> ''TSN'' \<Longrightarrow> params (run_steps sc e k sts s) n = params s n"
  by (induction sts arbitrary: k s) (simp_all add: execute_step_other_params)

lemma run_steps_buffers [simp]:
  "correlation_id (run_steps sc e k sts s) = correlation_id s"
  "customer_id (run_steps sc e k sts s) = customer_id s"
  "session_id (run_steps sc e k sts s) = session_id s"
  "trace_id (run_steps sc e k sts s) = trace_id s"
  by (induction sts arbitrary: k s) simp_all

lemma run_steps_idle: "idle s \<Longrightarrow> idle (run_steps sc e k sts s)"
  by (induction sts arbitrary: k s) (simp_all add: idle_execute_step)

text \<open>When every step request returns, the last step block has run to its end.\<close>

lemma run_steps_cookies:
  "sts \<noteq> [] \<Longrightarrow> \<not> aborted s \<Longrightarrow> returned e k (length sts) = length sts \<Longrightarrow>
   cookies (run_steps sc e k sts s) = []"
proof (induction sts arbitrary: k s)
  case Nil
  then show ?case by simp
next
  case (Cons st sts)
  then show ?case by (cases sts) (simp_all add: returned_all_Suc)
qed

lemma run_steps_dt_test_header:
  "well_formed sc \<Longrightarrow> sts \<noteq> [] \<Longrightarrow> \<not> aborted s \<Longrightarrow> returned e k (length sts) = length sts \<Longrightarrow>
   dt_test_header (run_steps sc e k sts s) = tracing_value sc e (step_name (last sts)) ''{correlation_id}''"
proof (induction sts arbitrary: k s)
  case Nil
  then show ?case by simp
next
  case (Cons st sts)
  then show ?case by (cases sts) (simp_all add: execute_step_dt_test_header returned_all_Suc)
qed

lemma run_steps_open_transactions:
  "list_all (\<lambda>st. plain (step_name st) \<and> step_name st \<noteq> n) sts \<Longrightarrow> \<not> aborted s \<Longrightarrow>
   returned e k (length sts) = length sts \<Longrightarrow>
   n \<in> set (open_transactions (run_steps sc e k sts s)) \<longleftrightarrow> n \<in> set (open_transactions s)"
  by (induction sts arbitrary: k s)
     (auto simp: execute_step_open_transactions returned_all_Suc)

lemma step_request_TSN [simp]:
  "step_request sc e st (ps(''TSN'' \<mapsto> v)) cs = step_request sc e st ps cs"
  by (simp add: step_request_def)

text \<open>
  The requests of a sequence of step blocks: those of the steps up to and including the first
  whose request does not return, each with an empty cookie jar but the first.
\<close>

lemma run_steps_requests:
  "well_formed sc \<Longrightarrow> idle s \<Longrightarrow> \<not> aborted s \<Longrightarrow>
   list_all (\<lambda>st. plain (step_name st) \<and> plain (service_name st)) sts \<Longrightarrow>
   sent_requests (new_events s (run_steps sc e k sts s)) =
     map (\<lambda>(st, cs). step_request sc e st (params s) cs)
       (zip (take (Suc (returned e k (length sts))) sts) (cookies s # replicate (length sts) []))"
proof (induction sts arbitrary: k s)
  case Nil
  then show ?case by simp
next
  case (Cons st sts)
  let ?s1 = "execute_step sc e st (server e k) s"
  have i1: "idle ?s1" using Cons.prems(2) by (rule idle_execute_step)
  have ok: "list_all (\<lambda>st. plain (step_name st) \<and> plain (service_name st)) sts"
    using Cons.prems(4) by simp
  have first: "sent_requests (new_events s ?s1) = [step_request sc e st (params s) (cookies s)]"
    using Cons.prems by (simp add: execute_step_requests idle_def step_request_def)
  show ?case
  proof (cases "call_returns (continue_on_error e) (server e k)")
    case True
    have r1: "\<not> aborted ?s1" using True Cons.prems(3) by simp
    have p1: "params ?s1 = (params s)(''TSN'' \<mapsto> step_name st)"
      using Cons.prems(3) by simp
    have c1: "cookies ?s1 = []" using True Cons.prems(3) by simp
    have rest: "sent_requests (new_events ?s1 (run_steps sc e (Suc k) sts ?s1)) =
        map (\<lambda>(st, cs). step_request sc e st (params s) cs)
          (zip (take (Suc (returned e (Suc k) (length sts))) sts) ([] # replicate (length sts) []))"
      using Cons.IH [OF Cons.prems(1) i1 r1 ok, of "Suc k"]
      by (simp only: p1 c1 step_request_TSN)
    show ?thesis
      using True by (simp add: run_steps_new_events first rest returned_Suc)
  next
    case False
    have "aborted ?s1" using False by simp
    then show ?thesis
      using False by (simp add: first returned_Suc)
  qed
qed

lemma verdict_TSN [simp]: "verdict (ps(''TSN'' \<mapsto> v)) = verdict ps"
  by (simp add: verdict_def)

text \<open>The recorded results: one for each step whose request returned.\<close>

lemma run_steps_results:
  "list_all (\<lambda>st. plain (step_name st)) sts \<Longrightarrow> \<not> aborted s \<Longrightarrow>
   transaction_results (new_events s (run_steps sc e k sts s)) =
     map (\<lambda>st. (step_name st, verdict (params s))) (take (returned e k (length sts)) sts)"
proof (induction sts arbitrary: k s)
  case Nil
  then show ?case by simp
next
  case (Cons st sts)
  let ?s1 = "execute_step sc e st (server e k) s"
  show ?case
  proof (cases "call_returns (continue_on_error e) (server e k)")
    case True
    have r1: "\<not> aborted ?s1" using True Cons.prems(2) by simp
    have ok: "list_all (\<lambda>st. plain (step_name st)) sts"
      using Cons.prems(1) by simp
    have p1: "params ?s1 = (params s)(''TSN'' \<mapsto> step_name st)"
      using Cons.prems(2) by simp
    have rest: "transaction_results (new_events ?s1 (run_steps sc e (Suc k) sts ?s1)) =
        map (\<lambda>st. (step_name st, verdict (params s))) (take (returned e (Suc k) (length sts)) sts)"
      using Cons.IH [OF ok r1, of "Suc k"] by (simp only: p1 verdict_TSN)
    show ?thesis
      using True Cons.prems
      by (simp add: run_steps_new_events execute_step_results returned_Suc rest)
  next
    case False
    have "aborted ?s1" using False by simp
    then show ?thesis
      using False Cons.prems by (simp add: execute_step_results_stopped returned_Suc)
  qed
qed

lemma run_steps_saved_params:
  "\<not> aborted s \<Longrightarrow>
   saved_params (new_events s (run_steps sc e k sts s)) =
     map (\<lambda>st. (''TSN'', step_name st)) (take (Suc (returned e k (length sts))) sts)"
proof (induction sts arbitrary: k s)
  case Nil
  then show ?case by simp
next
  case (Cons st sts)
  let ?s1 = "execute_step sc e st (server e k) s"
  show ?case
  proof (cases "call_returns (continue_on_error e) (server e k)")
    case True
    have r1: "\<not> aborted ?s1" using True Cons.prems by simp
    show ?thesis
      using True Cons.prems Cons.IH [OF r1, of "Suc k"]
      by (simp add: run_steps_new_events execute_step_saved_params returned_Suc)
  next
    case False
    have "aborted ?s1" using False by simp
    then show ?thesis
      using False Cons.prems by (simp add: execute_step_saved_params returned_Suc)
  qed
qed

lemma param_text_run_steps [simp]:
  "n \<noteq> ''TSN'' \<Longrightarrow> param_text (params (run_steps sc e k sts s)) n = param_text (params s) n"
  by (simp add: param_text_def run_steps_params)

lemma run_steps_received:
  "\<not> aborted s \<Longrightarrow>
   received (new_events s (run_steps sc e k sts s)) =
     map (server e) (take (Suc (returned e k (length sts))) [k ..< k + length sts])"
proof (induction sts arbitrary: k s)
  case Nil
  then show ?case by simp
next
  case (Cons st sts)
  let ?s1 = "execute_step sc e st (server e k) s"
  have u: "[k ..< k + length (st # sts)] = k # [Suc k ..< Suc k + length sts]"
    by (subst upt_rec) simp
  show ?case
  proof (cases "call_returns (continue_on_error e) (server e k)")
    case True
    have r1: "\<not> aborted ?s1" using True Cons.prems by simp
    show ?thesis
      using True Cons.prems Cons.IH [OF r1, of "Suc k"]
      by (simp only: u) (simp add: run_steps_new_events execute_step_received returned_Suc)
  next
    case False
    have "aborted ?s1" using False by simp
    then show ?thesis
      using False Cons.prems
      by (simp only: u) (simp add: execute_step_received returned_Suc)
  qed
qed


section \<open>One iteration\<close>

lemma generate_ids_fields [simp]:
  "pending_headers (generate_ids sc e s) = pending_headers s"
  "auto_headers (generate_ids sc e s) = auto_headers s"
  "cookies (generate_ids sc e s) = cookies s"
  "settings (generate_ids sc e s) = settings s"
  "open_transactions (generate_ids sc e s) = open_transactions s"
  "dt_test_header (generate_ids sc e s) = dt_test_header s"
  "aborted (generate_ids sc e s) = aborted s"
  by (simp_all add: generate_ids_def)

lemma generate_ids_params:
  "params (generate_ids sc e s) =
     (params s)(''correlation_id'' \<mapsto> correlation_id (generate_ids sc e s),
                ''customer_id'' \<mapsto> customer_id (generate_ids sc e s),
                ''session_id'' \<mapsto> session_id (generate_ids sc e s),
                ''trace_id'' \<mapsto> trace_id (generate_ids sc e s))"
  by (simp add: generate_ids_def)

lemma generate_ids_log:
  "log (generate_ids sc e s) =
     log s @
     [Param_Saved ''correlation_id'' (correlation_id (generate_ids sc e s)),
      Param_Saved ''customer_id'' (customer_id (generate_ids sc e s)),
      Param_Saved ''session_id'' (session_id (generate_ids sc e s)),
      Param_Saved ''trace_id'' (trace_id (generate_ids sc e s))]"
  by (simp add: generate_ids_def)

lemma journey_start_fields [simp]:
  "pending_headers (journey_start sc e s) = pending_headers s"
  "auto_headers (journey_start sc e s) = auto_headers s"
  "cookies (journey_start sc e s) = cookies s"
  "settings (journey_start sc e s) = settings s"
  "dt_test_header (journey_start sc e s) = dt_test_header s"
  "correlation_id (journey_start sc e s) = correlation_id (generate_ids sc e s)"
  "customer_id (journey_start sc e s) = customer_id (generate_ids sc e s)"
  "session_id (journey_start sc e s) = session_id (generate_ids sc e s)"
  "trace_id (journey_start sc e s) = trace_id (generate_ids sc e s)"
  "aborted (journey_start sc e s) = aborted s"
  by (simp_all add: journey_start_def)

lemma journey_start_params:
  "params (journey_start sc e s) =
     (params s)(''correlation_id'' \<mapsto> correlation_id (generate_ids sc e s),
                ''customer_id'' \<mapsto> customer_id (generate_ids sc e s),
                ''session_id'' \<mapsto> session_id (generate_ids sc e s),
                ''trace_id'' \<mapsto> trace_id (generate_ids sc e s),
                ''LSN'' \<mapsto> lsn sc, ''LTN'' \<mapsto> ltn sc)"
  by (simp add: journey_start_def generate_ids_params)

lemma journey_start_open:
  "''Full_Customer_Journey'' \<in> set (open_transactions (journey_start sc e s))"
  by (simp add: journey_start_def)

lemma journey_start_log:
  "log (journey_start sc e s) =
     log s @
     [Param_Saved ''correlation_id'' (correlation_id (generate_ids sc e s)),
      Param_Saved ''customer_id'' (customer_id (generate_ids sc e s)),
      Param_Saved ''session_id'' (session_id (generate_ids sc e s)),
      Param_Saved ''trace_id'' (trace_id (generate_ids sc e s)),
      Param_Saved ''LSN'' (lsn sc), Param_Saved ''LTN'' (ltn sc),
      start_event (open_transactions s) ''Full_Customer_Journey'',
      Output_Message
        (''Starting journey for customer: {customer_name} ({customer_segment}) - Journey: '' @
         correlation_id (generate_ids sc e s))]"
  by (simp add: journey_start_def generate_ids_log)

lemma idle_journey_start: "idle s \<Longrightarrow> idle (journey_start sc e s)"
  by (simp add: idle_def)

text \<open>An aborted virtual user runs no iteration.\<close>

lemma Action_aborted: "aborted s \<Longrightarrow> Action sc e s = s"
  by (simp add: Action_def)

lemma Action_split:
  "\<not> aborted s \<Longrightarrow>
   Action sc e s =
     run_until_abort
         [lr_end_transaction ''Full_Customer_Journey'' LR_AUTO,
          lr_output_message
            ''Journey completed for {customer_name} - Total time: %d ms, Correlation: {correlation_id}'',
          (\<lambda>s. web_add_header ''x-dynatrace-test'' (dt_test_header s) s),
          web_add_header ''x-correlation-id'' ''{correlation_id}'',
          web_add_header ''Content-Type'' ''application/json'',
          web_custom_request ''Journey_Completion_Event'' simulate_url ''POST''
            (completion_body sc) (continue_on_error e) (server e (length (steps sc)))]
       (run_steps sc e 0 (steps sc) (journey_start sc e s))"
  by (simp add: Action_def journey_start_def)

lemma idle_vuser_init: "idle s \<Longrightarrow> idle (vuser_init sc e s)"
  by (simp add: idle_def vuser_init_def Let_def)

lemma idle_fresh_vuser: "idle fresh_vuser"
  by (simp add: idle_def fresh_vuser_def)

lemma vuser_init_running [simp]: "aborted (vuser_init sc e s) = aborted s"
  by (simp add: vuser_init_def Let_def)

lemma fresh_vuser_running [simp]: "\<not> aborted fresh_vuser"
  by (simp add: fresh_vuser_def)

lemma well_formed_steps:
  "well_formed sc \<Longrightarrow> list_all (\<lambda>st. plain (step_name st) \<and> plain (service_name st)) (steps sc)"
  "well_formed sc \<Longrightarrow> list_all (\<lambda>st. plain (step_name st)) (steps sc)"
  "well_formed sc \<Longrightarrow>
     list_all (\<lambda>st. plain (step_name st) \<and> step_name st \<noteq> ''Full_Customer_Journey'') (steps sc)"
  "well_formed sc \<Longrightarrow> steps sc \<noteq> []"
  by (auto simp: well_formed_def list_all_iff)

lemma well_formed_last_step: "well_formed sc \<Longrightarrow> plain (step_name (last (steps sc)))"
  using well_formed_steps(2) [of sc] well_formed_steps(4) [of sc]
  by (auto simp: list_all_iff)

text \<open>When all step requests return.\<close>

lemma takeWhile_all_length: "length (takeWhile P xs) = length xs \<longleftrightarrow> list_all P xs"
  by (induction xs) auto

lemma steps_return_iff: "steps_return sc e \<longleftrightarrow> steps_returned sc e = length (steps sc)"
  using takeWhile_all_length
    [of "\<lambda>j. call_returns (continue_on_error e) (server e j)" "[0 ..< length (steps sc)]"]
  by (simp add: steps_return_def steps_returned_def returned_def)

lemma steps_return_cases:
  "steps_return sc e \<longleftrightarrow>
     continue_on_error e \<or> (\<forall>k < length (steps sc). \<not> request_failed (server e k))"
  by (auto simp: steps_return_def call_returns_iff list_all_iff)

lemma steps_returned_less: "\<not> steps_return sc e \<Longrightarrow> steps_returned sc e < length (steps sc)"
  using returned_le [of e 0 "length (steps sc)"]
  by (simp add: steps_return_iff steps_returned_def)

lemma steps_returned_stops:
  "\<not> steps_return sc e \<Longrightarrow>
   \<not> call_returns (continue_on_error e) (server e (steps_returned sc e))"
  using returned_stops [of e 0 "length (steps sc)"] steps_returned_less [of sc e]
  by (simp add: steps_returned_def)

lemma run_all_steps_aborts:
  "\<not> aborted s \<Longrightarrow>
   aborted (run_steps sc e 0 (steps sc) s) = (\<not> steps_return sc e)"
  using returned_le [of e 0 "length (steps sc)"]
  by (auto simp: run_steps_aborts steps_return_iff steps_returned_def)

text \<open>An iteration in which a step request does not return ends there.\<close>

lemma Action_stopped:
  "\<not> aborted s \<Longrightarrow> \<not> steps_return sc e \<Longrightarrow>
   Action sc e s = run_steps sc e 0 (steps sc) (journey_start sc e s)"
  by (simp add: Action_split run_all_steps_aborts)

lemma Action_events_stopped:
  assumes running: "\<not> aborted s" and stop: "\<not> steps_return sc e"
  shows "new_events s (Action sc e s) =
     new_events s (journey_start sc e s) @
     new_events (journey_start sc e s) (run_steps sc e 0 (steps sc) (journey_start sc e s))"
proof -
  let ?s2 = "journey_start sc e s"
  let ?s3 = "run_steps sc e 0 (steps sc) ?s2"
  obtain b where b: "log ?s3 = log ?s2 @ b"
    using run_steps_log_extends by blast
  have a: "log ?s2 = log s @ new_events s ?s2"
    by (simp add: journey_start_log new_events_def)
  show ?thesis
    using new_events_trans [OF a b] by (simp add: Action_stopped [OF running stop])
qed

lemma Action_events:
  assumes wf: "well_formed sc" and idle: "idle s" and running: "\<not> aborted s"
    and all: "steps_return sc e"
  shows "new_events s (Action sc e s) =
     new_events s (journey_start sc e s) @
     new_events (journey_start sc e s) (run_steps sc e 0 (steps sc) (journey_start sc e s)) @
     [Transaction_Ended ''Full_Customer_Journey'' LR_AUTO,
      Output_Message
        ''Journey completed for {customer_name} - Total time: %d ms, Correlation: {correlation_id}'',
      Request_Sent
        (completion_request sc (params (journey_start sc e s))
           (tracing_value sc e (step_name (last (steps sc))) ''{correlation_id}'') [])
        (server e (length (steps sc)))]"
proof -
  let ?s2 = "journey_start sc e s"
  let ?s3 = "run_steps sc e 0 (steps sc) ?s2"
  have r2: "\<not> aborted ?s2" using running by simp
  have ret: "returned e 0 (length (steps sc)) = length (steps sc)"
    using all by (simp add: steps_return_iff steps_returned_def)
  have r3: "\<not> aborted ?s3"
    using r2 all by (simp add: run_all_steps_aborts)
  obtain b where b: "log ?s3 = log ?s2 @ b"
    using run_steps_log_extends by blast
  have a: "log ?s2 = log s @ new_events s ?s2"
    by (simp add: journey_start_log new_events_def)
  have i3: "pending_headers ?s3 = []" "auto_headers ?s3 = []"
    using run_steps_idle [OF idle_journey_start [OF idle]]
    by (simp_all add: idle_def)
  have o3: "''Full_Customer_Journey'' \<in> set (open_transactions ?s3)"
    using run_steps_open_transactions [OF well_formed_steps(3) [OF wf] r2 ret] journey_start_open
    by blast
  have c3: "cookies ?s3 = []"
    using well_formed_steps(4) [OF wf] r2 ret by (rule run_steps_cookies)
  have d3: "dt_test_header ?s3 = tracing_value sc e (step_name (last (steps sc))) ''{correlation_id}''"
    using wf well_formed_steps(4) [OF wf] r2 ret by (rule run_steps_dt_test_header)
  have n: "new_events ?s2 ?s3 = b"
    using b by (rule new_events_eq)
  have "log (Action sc e s) =
      log s @ new_events s ?s2 @ b @
      [Transaction_Ended ''Full_Customer_Journey'' LR_AUTO,
       Output_Message
         ''Journey completed for {customer_name} - Total time: %d ms, Correlation: {correlation_id}'',
       Request_Sent
         (completion_request sc (params ?s2)
            (tracing_value sc e (step_name (last (steps sc))) ''{correlation_id}'') [])
         (server e (length (steps sc)))]"
    using wf well_formed_last_step [OF wf] r3
    by (simp add: Action_split [OF running] a b i3 o3 c3 d3 end_event_def completion_request_def
          simulate_url_def tracing_value_def subst_params_append_plain well_formed_plain
          completion_body_def)
  then have "new_events s (Action sc e s) =
      new_events s ?s2 @ b @
      [Transaction_Ended ''Full_Customer_Journey'' LR_AUTO,
       Output_Message
         ''Journey completed for {customer_name} - Total time: %d ms, Correlation: {correlation_id}'',
       Request_Sent
         (completion_request sc (params ?s2)
            (tracing_value sc e (step_name (last (steps sc))) ''{correlation_id}'') [])
         (server e (length (steps sc)))]"
    by (rule new_events_eq)
  then show ?thesis
    by (simp only: n)
qed

lemma journey_start_events:
  "new_events s (journey_start sc e s) =
     [Param_Saved ''correlation_id'' (correlation_id (generate_ids sc e s)),
      Param_Saved ''customer_id'' (customer_id (generate_ids sc e s)),
      Param_Saved ''session_id'' (session_id (generate_ids sc e s)),
      Param_Saved ''trace_id'' (trace_id (generate_ids sc e s)),
      Param_Saved ''LSN'' (lsn sc), Param_Saved ''LTN'' (ltn sc),
      start_event (open_transactions s) ''Full_Customer_Journey'',
      Output_Message
        (''Starting journey for customer: {customer_name} ({customer_segment}) - Journey: '' @
         correlation_id (generate_ids sc e s))]"
  by (simp add: journey_start_log new_events_def)

text \<open>
  What an iteration sends, receives, records and stores. The step requests are those of the
  steps up to and including the first whose request does not return; the transaction
  \<open>Full_Customer_Journey\<close> is closed and the completion event sent when all of them return.
\<close>

lemma Action_requests:
  assumes wf: "well_formed sc" and idle: "idle s" and running: "\<not> aborted s"
  shows "sent_requests (new_events s (Action sc e s)) =
     map (\<lambda>(st, cs). step_request sc e st (params (journey_start sc e s)) cs)
       (zip (take (Suc (steps_returned sc e)) (steps sc))
            (cookies s # replicate (length (steps sc)) [])) @
     (if steps_return sc e
      then [completion_request sc (params (journey_start sc e s))
              (tracing_value sc e (step_name (last (steps sc))) ''{correlation_id}'') []]
      else [])"
proof -
  have i2: "idle (journey_start sc e s)"
    using idle by (rule idle_journey_start)
  have r2: "\<not> aborted (journey_start sc e s)"
    using running by simp
  show ?thesis
  proof (cases "steps_return sc e")
    case True
    then show ?thesis
      using wf i2 r2
      by (simp add: Action_events [OF wf idle running True] journey_start_events
            run_steps_requests well_formed_steps(1) steps_returned_def)
  next
    case False
    then show ?thesis
      using wf i2 r2
      by (simp add: Action_events_stopped [OF running False] journey_start_events
            run_steps_requests well_formed_steps(1) steps_returned_def)
  qed
qed

lemma Action_results:
  assumes wf: "well_formed sc" and idle: "idle s" and running: "\<not> aborted s"
  shows "transaction_results (new_events s (Action sc e s)) =
     map (\<lambda>st. (step_name st, verdict (params s))) (take (steps_returned sc e) (steps sc)) @
     (if steps_return sc e then [(''Full_Customer_Journey'', LR_AUTO)] else [])"
proof -
  have r2: "\<not> aborted (journey_start sc e s)"
    using running by simp
  show ?thesis
  proof (cases "steps_return sc e")
    case True
    then show ?thesis
      by (simp add: Action_events [OF wf idle running True] journey_start_events
            run_steps_results [OF well_formed_steps(2) [OF wf] r2] journey_start_params
            verdict_def steps_returned_def)
  next
    case False
    then show ?thesis
      by (simp add: Action_events_stopped [OF running False] journey_start_events
            run_steps_results [OF well_formed_steps(2) [OF wf] r2] journey_start_params
            verdict_def steps_returned_def)
  qed
qed

lemma Action_received:
  assumes wf: "well_formed sc" and idle: "idle s" and running: "\<not> aborted s"
  shows "received (new_events s (Action sc e s)) =
     map (server e) (take (Suc (steps_returned sc e)) [0 ..< length (steps sc)]) @
     (if steps_return sc e then [server e (length (steps sc))] else [])"
proof -
  have r2: "\<not> aborted (journey_start sc e s)"
    using running by simp
  show ?thesis
  proof (cases "steps_return sc e")
    case True
    then show ?thesis
      using run_steps_received [OF r2, of sc e 0 "steps sc"]
      by (simp add: Action_events [OF wf idle running True] journey_start_events
            steps_returned_def)
  next
    case False
    then show ?thesis
      using run_steps_received [OF r2, of sc e 0 "steps sc"]
      by (simp add: Action_events_stopped [OF running False] journey_start_events
            steps_returned_def)
  qed
qed

lemma Action_saved_params:
  assumes wf: "well_formed sc" and idle: "idle s" and running: "\<not> aborted s"
  shows "saved_params (new_events s (Action sc e s)) =
     [(''correlation_id'', correlation_id (generate_ids sc e s)),
      (''customer_id'', customer_id (generate_ids sc e s)),
      (''session_id'', session_id (generate_ids sc e s)),
      (''trace_id'', trace_id (generate_ids sc e s)),
      (''LSN'', lsn sc), (''LTN'', ltn sc)] @
     map (\<lambda>st. (''TSN'', step_name st)) (take (Suc (steps_returned sc e)) (steps sc))"
proof -
  have r2: "\<not> aborted (journey_start sc e s)"
    using running by simp
  show ?thesis
  proof (cases "steps_return sc e")
    case True
    then show ?thesis
      by (simp add: Action_events [OF wf idle running True] journey_start_events
            run_steps_saved_params [OF r2] steps_returned_def)
  next
    case False
    then show ?thesis
      by (simp add: Action_events_stopped [OF running False] journey_start_events
            run_steps_saved_params [OF r2] steps_returned_def)
  qed
qed

text \<open>An iteration leaves the virtual user aborted exactly when one of its requests, the
  completion event included, does not return.\<close>

lemma Action_aborts:
  "\<not> aborted s \<Longrightarrow>
   aborted (Action sc e s) =
     (\<not> steps_return sc e \<or>
      \<not> call_returns (continue_on_error e) (server e (length (steps sc))))"
proof (cases "steps_return sc e")
  case True
  assume running: "\<not> aborted s"
  have "\<not> aborted (run_steps sc e 0 (steps sc) (journey_start sc e s))"
    using running True by (simp add: run_all_steps_aborts)
  then show ?thesis
    using True by (simp add: Action_split [OF running])
next
  case False
  assume running: "\<not> aborted s"
  show ?thesis
    using False running by (simp add: Action_stopped run_all_steps_aborts)
qed

lemma idle_Action:
  assumes "idle s"
  shows "idle (Action sc e s)"
proof (cases "aborted s")
  case True
  then show ?thesis using assms by (simp add: Action_aborted)
next
  case False
  let ?s3 = "run_steps sc e 0 (steps sc) (journey_start sc e s)"
  have i3: "idle ?s3"
    using assms by (intro run_steps_idle idle_journey_start)
  show ?thesis
  proof (cases "aborted ?s3")
    case True
    then show ?thesis using i3 by (simp add: Action_split [OF False])
  next
    case running: False
    then show ?thesis using i3 by (simp add: Action_split [OF False] idle_def)
  qed
qed

text \<open>Every iteration of a run starts with no header held by the client.\<close>

lemma idle_iterations:
  "idle (foldl (\<lambda>s e. Action sc e s) (vuser_init sc e0 fresh_vuser) es)"
  by (induction es rule: rev_induct) (simp_all add: idle_Action idle_vuser_init idle_fresh_vuser)

text \<open>A run starts with a virtual user that is not aborted, and once a virtual user is aborted
  its later iterations do nothing (\<open>Action_aborted\<close>): the iterations that run are those that
  start in a virtual user that is not aborted.\<close>

lemma started_running: "\<not> aborted (vuser_init sc e0 fresh_vuser)"
  by simp


section \<open>The journey as a whole\<close>

lemma map_over_zip:
  "(\<And>st cs. f (R st cs) = g st) \<Longrightarrow> length xs \<le> length ys \<Longrightarrow>
   map f (map (\<lambda>(st, cs). R st cs) (zip xs ys)) = map g xs"
proof (induction xs arbitrary: ys)
  case Nil
  then show ?case by simp
next
  case (Cons x xs)
  then show ?case by (cases ys) simp_all
qed

lemma request_step_number_step_request [simp]:
  "request_step_number (step_request sc e st ps cs) = Some (step_number st)"
  by (simp add: request_step_number_def step_request_def step_body_def field_def)

lemma request_step_number_completion_request [simp]:
  "request_step_number (completion_request sc ps dt cs) = None"
  by (simp add: request_step_number_def completion_request_def completion_body_def field_def)

lemma req_name_step_request [simp]:
  "req_name (step_request sc e st ps cs) = step_name st @ ''_Journey_Step''"
  by (simp add: step_request_def)

lemma req_name_completion_request [simp]:
  "req_name (completion_request sc ps dt cs) = ''Journey_Completion_Event''"
  by (simp add: completion_request_def)

lemma well_formed_step_numbers:
  "well_formed sc \<Longrightarrow> map step_number (steps sc) = map int [1 ..< Suc (length (steps sc))]"
  by (simp add: well_formed_def)

lemma idle_started_vuser: "idle started_vuser"
  unfolding started_vuser_def by (intro idle_vuser_init idle_fresh_vuser)

lemma running_started_vuser: "\<not> aborted started_vuser"
  by (simp add: started_vuser_def)

lemma argos_in_scripts: "argos \<in> set scripts"
  by (simp add: scripts_def)

lemma argos_steps_length: "length (steps argos) = 6"
  by (simp add: argos_def argos_steps_def)

text \<open>The step requests of an iteration are its first \<open>N\<close> requests at most.\<close>

lemma Action_step_requests:
  assumes wf: "well_formed sc" and idle: "idle s" and running: "\<not> aborted s"
  shows "take (length (steps sc)) (sent_requests (new_events s (Action sc e s))) =
     map (\<lambda>(st, cs). step_request sc e st (params (journey_start sc e s)) cs)
       (zip (take (Suc (steps_returned sc e)) (steps sc))
            (cookies s # replicate (length (steps sc)) []))"
proof (cases "steps_return sc e")
  case True
  then show ?thesis
    by (simp add: Action_requests [OF wf idle running] steps_return_iff)
next
  case False
  then show ?thesis
    using steps_returned_less [OF False]
    by (simp add: Action_requests [OF wf idle running])
qed

lemma Action_requests_all:
  assumes wf: "well_formed sc" and idle: "idle s" and running: "\<not> aborted s"
    and all: "steps_return sc e"
  shows "sent_requests (new_events s (Action sc e s)) =
     map (\<lambda>(st, cs). step_request sc e st (params (journey_start sc e s)) cs)
       (zip (steps sc) (cookies s # replicate (length (steps sc)) [])) @
     [completion_request sc (params (journey_start sc e s))
        (tracing_value sc e (step_name (last (steps sc))) ''{correlation_id}'') []]"
  using all by (simp add: Action_requests [OF wf idle running] steps_return_iff)

lemma step_numbers_prefix:
  assumes wf: "well_formed sc" and m: "m \<le> length (steps sc)"
  shows "map (\<lambda>st. Some (step_number st)) (take m (steps sc)) =
         map (\<lambda>n. Some (int n)) [1 ..< Suc m]"
proof -
  have "map (\<lambda>st. Some (step_number st)) (take m (steps sc)) =
        map Some (take m (map step_number (steps sc)))"
    by (simp add: take_map)
  also have "\<dots> = map Some (take m (map int [1 ..< Suc (length (steps sc))]))"
    by (simp only: well_formed_step_numbers [OF wf])
  also have "\<dots> = map Some (map int (take m [1 ..< Suc (length (steps sc))]))"
    by (simp only: take_map)
  also have "take m [1 ..< Suc (length (steps sc))] = [1 ..< Suc m]"
    using m by (subst take_upt) simp_all
  finally show ?thesis by simp
qed

text \<open>
  Claim C5, as amended. The script never looks at the result of a request and its checks gate
  nothing: an iteration in which every step request returns control to the script sends the
  requests of steps 1, 2, ..., N in this order, followed by the completion event; the \<open>k\<close>-th
  of them receives whatever the server returns for it, and each step's transaction is closed
  with the verdict of its check. Every step request returns when the scenario runs with
  ``continue on error'', whatever the responses are, and otherwise when no step request is in
  error (\<open>steps_return\<close>). Without the setting, which the scripts do not select, the first
  step request in error ends the iteration: the requests sent are those of steps 1, ..., m in
  this order, where step m is the first whose request is in error, no later step is started,
  only the steps before step m have a recorded result, and the virtual user is aborted. In
  both cases no request is repeated or reordered. This holds for every state in which an
  iteration can start: no header held by the client (\<open>idle\<close>, see \<open>idle_iterations\<close>) and
  the virtual user not aborted; the parameters, and with them the verdicts, are arbitrary.
\<close>

theorem steps_run_in_order:
  "sc \<in> set scripts \<Longrightarrow> idle s \<Longrightarrow> \<not> aborted s \<Longrightarrow>
   (steps_return sc e \<longleftrightarrow>
      continue_on_error e \<or> (\<forall>k < length (steps sc). \<not> request_failed (server e k))) \<and>
   (steps_return sc e \<longrightarrow>
      map request_step_number (sent_requests (new_events s (Action sc e s))) =
        map (\<lambda>n. Some (int n)) [1 ..< Suc (length (steps sc))] @ [None] \<and>
      map req_name (sent_requests (new_events s (Action sc e s))) =
        map (\<lambda>st. step_name st @ ''_Journey_Step'') (steps sc) @ [''Journey_Completion_Event''] \<and>
      received (new_events s (Action sc e s)) = map (server e) [0 ..< Suc (length (steps sc))] \<and>
      transaction_results (new_events s (Action sc e s)) =
        map (\<lambda>st. (step_name st, verdict (params s))) (steps sc) @
        [(''Full_Customer_Journey'', LR_AUTO)]) \<and>
   (\<not> steps_return sc e \<longrightarrow>
      steps_returned sc e < length (steps sc) \<and>
      request_failed (server e (steps_returned sc e)) \<and>
      map request_step_number (sent_requests (new_events s (Action sc e s))) =
        map (\<lambda>n. Some (int n)) [1 ..< Suc (Suc (steps_returned sc e))] \<and>
      received (new_events s (Action sc e s)) = map (server e) [0 ..< Suc (steps_returned sc e)] \<and>
      transaction_results (new_events s (Action sc e s)) =
        map (\<lambda>st. (step_name st, verdict (params s))) (take (steps_returned sc e) (steps sc)) \<and>
      aborted (Action sc e s))"
proof -
  assume sc: "sc \<in> set scripts" and idle: "idle s" and running: "\<not> aborted s"
  have wf: "well_formed sc" using sc by (rule scripts_well_formed)
  let ?ps = "params (journey_start sc e s)"
  let ?N = "length (steps sc)"
  let ?sent = "sent_requests (new_events s (Action sc e s))"
  have all: "map request_step_number ?sent = map (\<lambda>n. Some (int n)) [1 ..< Suc ?N] @ [None] \<and>
      map req_name ?sent =
        map (\<lambda>st. step_name st @ ''_Journey_Step'') (steps sc) @ [''Journey_Completion_Event''] \<and>
      received (new_events s (Action sc e s)) = map (server e) [0 ..< Suc ?N] \<and>
      transaction_results (new_events s (Action sc e s)) =
        map (\<lambda>st. (step_name st, verdict (params s))) (steps sc) @
        [(''Full_Customer_Journey'', LR_AUTO)]"
    if ret: "steps_return sc e"
  proof -
    let ?reqs = "map (\<lambda>(st, cs). step_request sc e st ?ps cs)
                   (zip (steps sc) (cookies s # replicate ?N []))"
    have r: "steps_returned sc e = ?N" using ret by (simp add: steps_return_iff)
    have n1: "map request_step_number ?reqs = map (\<lambda>st. Some (step_number st)) (steps sc)"
      by (rule map_over_zip) simp_all
    have n2: "map (\<lambda>st. Some (step_number st)) (steps sc) = map (\<lambda>n. Some (int n)) [1 ..< Suc ?N]"
      using step_numbers_prefix [OF wf, of ?N] by simp
    have numbers: "map request_step_number ?sent = map (\<lambda>n. Some (int n)) [1 ..< Suc ?N] @ [None]"
      by (simp add: Action_requests_all [OF wf idle running ret] n1 n2 del: map_map)
    have m1: "map req_name ?reqs = map (\<lambda>st. step_name st @ ''_Journey_Step'') (steps sc)"
      by (rule map_over_zip) simp_all
    have names: "map req_name ?sent =
       map (\<lambda>st. step_name st @ ''_Journey_Step'') (steps sc) @ [''Journey_Completion_Event'']"
      by (simp add: Action_requests_all [OF wf idle running ret] m1 del: map_map)
    have rec: "received (new_events s (Action sc e s)) = map (server e) [0 ..< Suc ?N]"
      using ret by (simp add: Action_received [OF wf idle running] r)
    have res: "transaction_results (new_events s (Action sc e s)) =
        map (\<lambda>st. (step_name st, verdict (params s))) (steps sc) @
        [(''Full_Customer_Journey'', LR_AUTO)]"
      using ret by (simp add: Action_results [OF wf idle running] r)
    show ?thesis
      using numbers names rec res by simp
  qed
  have stopped: "steps_returned sc e < ?N \<and>
      request_failed (server e (steps_returned sc e)) \<and>
      map request_step_number ?sent =
        map (\<lambda>n. Some (int n)) [1 ..< Suc (Suc (steps_returned sc e))] \<and>
      received (new_events s (Action sc e s)) = map (server e) [0 ..< Suc (steps_returned sc e)] \<and>
      transaction_results (new_events s (Action sc e s)) =
        map (\<lambda>st. (step_name st, verdict (params s))) (take (steps_returned sc e) (steps sc)) \<and>
      aborted (Action sc e s)"
    if stop: "\<not> steps_return sc e"
  proof -
    let ?m = "Suc (steps_returned sc e)"
    let ?reqs = "map (\<lambda>(st, cs). step_request sc e st ?ps cs)
                   (zip (take ?m (steps sc)) (cookies s # replicate ?N []))"
    have less: "steps_returned sc e < ?N" using stop by (rule steps_returned_less)
    have failed: "request_failed (server e (steps_returned sc e))"
      using steps_returned_stops [OF stop] by (simp add: call_returns_iff)
    have n1: "map request_step_number ?reqs = map (\<lambda>st. Some (step_number st)) (take ?m (steps sc))"
      by (rule map_over_zip) simp_all
    have n2: "map (\<lambda>st. Some (step_number st)) (take ?m (steps sc)) =
              map (\<lambda>n. Some (int n)) [1 ..< Suc ?m]"
      using less by (intro step_numbers_prefix [OF wf]) simp
    have numbers: "map request_step_number ?sent = map (\<lambda>n. Some (int n)) [1 ..< Suc ?m]"
      using stop by (simp add: Action_requests [OF wf idle running] n1 n2 del: map_map)
    have rec: "received (new_events s (Action sc e s)) = map (server e) [0 ..< ?m]"
      using stop less by (simp add: Action_received [OF wf idle running])
    have res: "transaction_results (new_events s (Action sc e s)) =
        map (\<lambda>st. (step_name st, verdict (params s))) (take (steps_returned sc e) (steps sc))"
      using stop by (simp add: Action_results [OF wf idle running])
    have ab: "aborted (Action sc e s)"
      using stop by (simp add: Action_aborts [OF running])
    show ?thesis
      using less failed numbers rec res ab by simp
  qed
  show ?thesis
    using all stopped steps_return_cases [of sc e] by blast
qed

lemma failing_env_returns: "steps_return sc failing_env"
  by (simp add: steps_return_cases failing_env_def)

lemma aborting_env_stops:
  "\<not> steps_return argos aborting_env" "steps_returned argos aborting_env = 1"
  by (simp_all add: steps_return_iff steps_returned_def argos_steps_length aborting_env_def
        returned_Suc eval_nat_numeral call_returns_iff request_failed_def)

theorem steps_run_in_order_witness:
  "argos \<in> set scripts \<and> idle started_vuser \<and> \<not> aborted started_vuser \<and>
   steps_return argos failing_env \<and>
   map request_step_number
     (sent_requests (new_events started_vuser (Action argos failing_env started_vuser))) =
     [Some 1, Some 2, Some 3, Some 4, Some 5, Some 6, None] \<and>
   received (new_events started_vuser (Action argos failing_env started_vuser)) =
     [Http_Response 500 [], Http_Response 500 [], Http_Response 500 [], Http_Response 500 [],
      Http_Response 500 [], Http_Response 500 [], Http_Response 500 []] \<and>
   \<not> steps_return argos aborting_env \<and>
   map request_step_number
     (sent_requests (new_events started_vuser (Action argos aborting_env started_vuser))) =
     [Some 1, Some 2] \<and>
   aborted (Action argos aborting_env started_vuser)"
proof -
  have srv: "server failing_env = (\<lambda>k. Http_Response 500 [])"
    by (simp add: failing_env_def)
  have full: "map request_step_number
       (sent_requests (new_events started_vuser (Action argos failing_env started_vuser))) =
       [Some 1, Some 2, Some 3, Some 4, Some 5, Some 6, None] \<and>
     received (new_events started_vuser (Action argos failing_env started_vuser)) =
       [Http_Response 500 [], Http_Response 500 [], Http_Response 500 [], Http_Response 500 [],
        Http_Response 500 [], Http_Response 500 [], Http_Response 500 []]"
    using steps_run_in_order [OF argos_in_scripts idle_started_vuser running_started_vuser,
        of failing_env] failing_env_returns [of argos]
    by (simp add: argos_steps_length upt_rec srv)
  have part: "map request_step_number
       (sent_requests (new_events started_vuser (Action argos aborting_env started_vuser))) =
       [Some 1, Some 2] \<and>
     aborted (Action argos aborting_env started_vuser)"
    using steps_run_in_order [OF argos_in_scripts idle_started_vuser running_started_vuser,
        of aborting_env] aborting_env_stops
    by (simp add: upt_rec)
  show ?thesis
    using argos_in_scripts idle_started_vuser running_started_vuser failing_env_returns [of argos]
      aborting_env_stops(1) full part
    by blast
qed

text \<open>
  Claim C5 as stated fails when the scenario runs without ``continue on error'': the request of
  the second of the six steps of the Argos script is answered with status 500, the virtual user
  is aborted in that step, and the requests of steps 3 to 6 are never sent.
\<close>

theorem steps_stop_at_failed_request:
  "map request_step_number
     (sent_requests (new_events started_vuser (Action argos aborting_env started_vuser))) =
     [Some 1, Some 2] \<and>
   received (new_events started_vuser (Action argos aborting_env started_vuser)) =
     [Http_Response 200 [], Http_Response 500 []] \<and>
   map step_number (steps argos) = [1, 2, 3, 4, 5, 6] \<and>
   \<not> continue_on_error aborting_env"
proof -
  have sent: "sent_requests (new_events started_vuser (Action argos aborting_env started_vuser)) =
       map (\<lambda>(st, cs). step_request argos aborting_env st
                           (params (journey_start argos aborting_env started_vuser)) cs)
         (zip (take 2 (steps argos)) (cookies started_vuser # replicate 6 []))"
    by (simp add: Action_requests [OF argos_well_formed idle_started_vuser running_started_vuser]
          aborting_env_stops argos_steps_length numeral_2_eq_2)
  have reqs: "map request_step_number
       (sent_requests (new_events started_vuser (Action argos aborting_env started_vuser))) =
       map (\<lambda>st. Some (step_number st)) (take 2 (steps argos))"
    unfolding sent by (rule map_over_zip) (simp_all add: argos_steps_length)
  have rec: "received (new_events started_vuser (Action argos aborting_env started_vuser)) =
       [server aborting_env 0, server aborting_env 1]"
    by (simp add: Action_received [OF argos_well_formed idle_started_vuser running_started_vuser]
          aborting_env_stops argos_steps_length upt_rec)
  show ?thesis
    by (simp add: reqs rec)
       (simp add: argos_def argos_steps_def aborting_env_def)
qed


lemma plain_no_semicolon: "plain a \<Longrightarrow> CHR '';'' \<notin> set a"
  by (simp add: plain_def)

lemma header_keys_tracing_value:
  "well_formed sc \<Longrightarrow> plain name \<Longrightarrow> plain cid \<Longrightarrow>
   header_keys (tracing_value sc e name cid) =
     [''TSN'', ''LSN'', ''LTN'', ''VU'', ''SI'', ''PC'', ''AN'', ''CID'']"
proof -
  assume wf: "well_formed sc" and n: "plain name" and c: "plain cid"
  have s1: "split_on (CHR '';'') (tracing_value sc e name cid) =
     [''TSN='' @ name, ''LSN='' @ lsn sc, ''LTN='' @ ltn sc, ''VU='' @ show_int (vuser_id e),
      ''SI=LoadRunner'', ''PC=BizObs-Demo'', ''AN='' @ company sc, ''CID='' @ cid]"
    using plain_no_semicolon [OF n] plain_no_semicolon [OF c]
      plain_no_semicolon [OF well_formed_plain(1) [OF wf]]
      plain_no_semicolon [OF well_formed_plain(3) [OF wf]]
      plain_no_semicolon [OF well_formed_plain(4) [OF wf]]
      plain_no_semicolon [OF plain_show_int, of "vuser_id e"]
    by (simp add: tracing_value_def split_on_append split_on_plain)
  show ?thesis
    by (simp add: header_keys_def s1)
qed

lemma generate_ids_plain:
  "well_formed sc \<Longrightarrow> plain (correlation_id (generate_ids sc e s))"
  by (simp add: generate_ids_correlation_id well_formed_plain)

lemma header_step_request:
  "header ''X-dynaTrace'' (step_request sc e st ps cs) =
     [tracing_value sc e (step_name st) (param_text ps ''correlation_id'')]"
  "header ''x-correlation-id'' (step_request sc e st ps cs) = [param_text ps ''correlation_id'']"
  "header ''x-customer-id'' (step_request sc e st ps cs) = [param_text ps ''customer_id'']"
  "header ''x-session-id'' (step_request sc e st ps cs) = [param_text ps ''session_id'']"
  "header ''x-trace-id'' (step_request sc e st ps cs) = [param_text ps ''trace_id'']"
  "header ''x-step-name'' (step_request sc e st ps cs) = [step_name st]"
  "header ''x-service-name'' (step_request sc e st ps cs) = [service_name st]"
  by (simp_all add: header_def step_request_def step_headers_def)

lemma journey_start_ids:
  "param_text (params (journey_start sc e s)) ''correlation_id'' = correlation_id (generate_ids sc e s)"
  "param_text (params (journey_start sc e s)) ''customer_id'' = customer_id (generate_ids sc e s)"
  "param_text (params (journey_start sc e s)) ''session_id'' = session_id (generate_ids sc e s)"
  "param_text (params (journey_start sc e s)) ''trace_id'' = trace_id (generate_ids sc e s)"
  by (simp_all add: journey_start_params)

lemma butlast_sent_requests:
  assumes wf: "well_formed sc" and idle: "idle s" and running: "\<not> aborted s"
    and all: "steps_return sc e"
  shows "butlast (sent_requests (new_events s (Action sc e s))) =
         take (length (steps sc)) (sent_requests (new_events s (Action sc e s)))"
  by (simp add: Action_requests_all [OF wf idle running all] butlast_append)

text \<open>
  Claim C6. On every step request of an iteration the tracing header \<open>X-dynaTrace\<close> is the
  text \<open>TSN=...;LSN=...;LTN=...;VU=...;SI=LoadRunner;PC=BizObs-Demo;AN=...;CID=...\<close> with the
  step name, the journey label, the run label, the worker id, the company name and the
  correlation id of the iteration in these places; split at the semicolons, its keys are TSN,
  LSN, LTN, VU, SI, PC, AN, CID in this order. The step requests of an iteration are all its
  requests but the last when every step request returns control to the script
  (\<open>steps_return\<close>); in general they are its first \<open>N\<close> requests at most, those of the steps up
  to and including the first whose request does not return, and the same holds of them.
\<close>

theorem tracing_header_value:
  "sc \<in> set scripts \<Longrightarrow> idle s \<Longrightarrow> \<not> aborted s \<Longrightarrow>
   (steps_return sc e \<longrightarrow>
      map (header ''X-dynaTrace'') (butlast (sent_requests (new_events s (Action sc e s)))) =
        map (\<lambda>st. [''TSN='' @ step_name st @ '';LSN='' @ lsn sc @ '';LTN='' @ ltn sc @ '';VU='' @
                    show_int (vuser_id e) @ '';SI=LoadRunner;PC=BizObs-Demo;AN='' @ company sc @
                    '';CID='' @ correlation_id (generate_ids sc e s)]) (steps sc)) \<and>
   map (header ''X-dynaTrace'')
     (take (length (steps sc)) (sent_requests (new_events s (Action sc e s)))) =
     map (\<lambda>st. [''TSN='' @ step_name st @ '';LSN='' @ lsn sc @ '';LTN='' @ ltn sc @ '';VU='' @
                 show_int (vuser_id e) @ '';SI=LoadRunner;PC=BizObs-Demo;AN='' @ company sc @
                 '';CID='' @ correlation_id (generate_ids sc e s)])
       (take (Suc (steps_returned sc e)) (steps sc)) \<and>
   (\<forall>st \<in> set (steps sc).
      header_keys
        (''TSN='' @ step_name st @ '';LSN='' @ lsn sc @ '';LTN='' @ ltn sc @ '';VU='' @
         show_int (vuser_id e) @ '';SI=LoadRunner;PC=BizObs-Demo;AN='' @ company sc @
         '';CID='' @ correlation_id (generate_ids sc e s)) =
      [''TSN'', ''LSN'', ''LTN'', ''VU'', ''SI'', ''PC'', ''AN'', ''CID''])"
proof -
  assume sc: "sc \<in> set scripts" and idle: "idle s" and running: "\<not> aborted s"
  have wf: "well_formed sc" using sc by (rule scripts_well_formed)
  let ?ps = "params (journey_start sc e s)"
  let ?cid = "correlation_id (generate_ids sc e s)"
  let ?reqs = "map (\<lambda>(st, cs). step_request sc e st ?ps cs)
                 (zip (take (Suc (steps_returned sc e)) (steps sc))
                      (cookies s # replicate (length (steps sc)) []))"
  have h: "map (header ''X-dynaTrace'') ?reqs =
           map (\<lambda>st. [tracing_value sc e (step_name st) ?cid])
             (take (Suc (steps_returned sc e)) (steps sc))"
    by (rule map_over_zip) (simp_all add: header_step_request journey_start_ids)
  have vals: "map (header ''X-dynaTrace'')
             (take (length (steps sc)) (sent_requests (new_events s (Action sc e s)))) =
           map (\<lambda>st. [tracing_value sc e (step_name st) ?cid])
             (take (Suc (steps_returned sc e)) (steps sc))"
    by (simp only: Action_step_requests [OF wf idle running] h)
  have vals_all: "map (header ''X-dynaTrace'')
             (butlast (sent_requests (new_events s (Action sc e s)))) =
           map (\<lambda>st. [tracing_value sc e (step_name st) ?cid]) (steps sc)"
    if all: "steps_return sc e"
    using vals all
    by (simp add: butlast_sent_requests [OF wf idle running all] steps_return_iff)
  have keys: "\<forall>st \<in> set (steps sc). header_keys (tracing_value sc e (step_name st) ?cid) =
      [''TSN'', ''LSN'', ''LTN'', ''VU'', ''SI'', ''PC'', ''AN'', ''CID'']"
    using well_formed_steps(2) [OF wf] generate_ids_plain [OF wf]
    by (auto simp: list_all_iff intro!: header_keys_tracing_value [OF wf])
  show ?thesis
    using vals vals_all keys by (simp add: tracing_value_def)
qed

lemma calm_env_returns: "steps_return sc calm_env"
  by (simp add: steps_return_cases calm_env_def request_failed_def)

theorem tracing_header_value_witness:
  "argos \<in> set scripts \<and> idle started_vuser \<and> \<not> aborted started_vuser \<and>
   steps_return argos calm_env \<and>
   map (header ''X-dynaTrace'')
     (butlast (sent_requests (new_events started_vuser (Action argos calm_env started_vuser)))) =
   map (\<lambda>st. [''TSN='' @ step_name st @
               '';LSN=BizObs_Argos_www.Argos.co.uk_Journey;LTN=Argos_LoadTest_20260106;VU=1;SI=LoadRunner;PC=BizObs-Demo;AN=Argos;CID=LR_Argos_LoadTest_20260106_1_1_1767707283''])
     (steps argos) \<and>
   header_keys
     ''TSN=ProductDiscovery;LSN=BizObs_Argos_www.Argos.co.uk_Journey;LTN=Argos_LoadTest_20260106;VU=1;SI=LoadRunner;PC=BizObs-Demo;AN=Argos;CID=LR_Argos_LoadTest_20260106_1_1_1767707283'' =
   [''TSN'', ''LSN'', ''LTN'', ''VU'', ''SI'', ''PC'', ''AN'', ''CID'']"
proof -
  have v: "show_int (vuser_id calm_env) = ''1''"
    by (simp add: calm_env_def show_int_def show_nat.simps digit_char_def)
  have c: "correlation_id (generate_ids argos calm_env started_vuser) =
           ''LR_Argos_LoadTest_20260106_1_1_1767707283''"
    by (simp add: generate_ids_correlation_id [OF argos_well_formed] argos_labels calm_env_def
          show_int_def show_nat.simps digit_char_def)
  have a: "lsn argos = ''BizObs_Argos_www.Argos.co.uk_Journey''" "ltn argos = ''Argos_LoadTest_20260106''"
      "company argos = ''Argos''"
    by (simp_all add: argos_def)
  have m: "\<lparr>step_number = 1, step_name = ''ProductDiscovery'',
             service_name = ''ProductDiscoveryService'', estimated_duration = 4,
             think_time = 5\<rparr> \<in> set (steps argos)"
    by (simp add: argos_def argos_steps_def)
  note th = tracing_header_value [OF argos_in_scripts idle_started_vuser running_started_vuser,
      of calm_env]
  show ?thesis
    using th argos_in_scripts idle_started_vuser running_started_vuser calm_env_returns [of argos]
      bspec [OF conjunct2 [OF conjunct2 [OF th]] m]
    by (simp add: v c a)
qed


lemma map_constant: "(\<forall>x \<in> set xs. f x = v) \<Longrightarrow> map f xs = replicate (length xs) v"
  by (induction xs) simp_all

lemma body_step_request:
  "field ''journeyId'' (req_body (step_request sc e st ps cs)) = Some (JString (param_text ps ''correlation_id''))"
  "field ''customerId'' (req_body (step_request sc e st ps cs)) = Some (JString (param_text ps ''customer_id''))"
  "field ''sessionId'' (req_body (step_request sc e st ps cs)) = Some (JString (param_text ps ''session_id''))"
  "field ''traceId'' (req_body (step_request sc e st ps cs)) = Some (JString (param_text ps ''trace_id''))"
  by (simp_all add: step_request_def step_body_def field_def)

lemma Action_buffers:
  "\<not> aborted s \<Longrightarrow> identifiers_of (Action sc e s) = identifiers_of (generate_ids sc e s)"
  by (cases "aborted (run_steps sc e 0 (steps sc) (journey_start sc e s))")
     (simp_all add: identifiers_of_def Action_split)

lemma Action_events_head:
  assumes wf: "well_formed sc" and idle: "idle s" and running: "\<not> aborted s"
  shows "take 4 (new_events s (Action sc e s)) =
     [Param_Saved ''correlation_id'' (correlation_id (generate_ids sc e s)),
      Param_Saved ''customer_id'' (customer_id (generate_ids sc e s)),
      Param_Saved ''session_id'' (session_id (generate_ids sc e s)),
      Param_Saved ''trace_id'' (trace_id (generate_ids sc e s))]"
    and "saved_params (drop 4 (new_events s (Action sc e s))) =
     [(''LSN'', lsn sc), (''LTN'', ltn sc)] @
     map (\<lambda>st. (''TSN'', step_name st)) (take (Suc (steps_returned sc e)) (steps sc))"
proof -
  have r2: "\<not> aborted (journey_start sc e s)"
    using running by simp
  have ev: "\<exists>rest. new_events s (Action sc e s) =
      new_events s (journey_start sc e s) @
      new_events (journey_start sc e s) (run_steps sc e 0 (steps sc) (journey_start sc e s)) @ rest \<and>
      saved_params rest = []"
  proof (cases "steps_return sc e")
    case True
    show ?thesis
      by (rule exI [of _ "[Transaction_Ended ''Full_Customer_Journey'' LR_AUTO,
            Output_Message
              ''Journey completed for {customer_name} - Total time: %d ms, Correlation: {correlation_id}'',
            Request_Sent
              (completion_request sc (params (journey_start sc e s))
                 (tracing_value sc e (step_name (last (steps sc))) ''{correlation_id}'') [])
              (server e (length (steps sc)))]"])
         (simp add: Action_events [OF wf idle running True])
  next
    case False
    show ?thesis
      by (rule exI [of _ "[]"]) (simp add: Action_events_stopped [OF running False])
  qed
  then obtain rest where
    e: "new_events s (Action sc e s) =
      new_events s (journey_start sc e s) @
      new_events (journey_start sc e s) (run_steps sc e 0 (steps sc) (journey_start sc e s)) @ rest"
    and n: "saved_params rest = []"
    by blast
  show "take 4 (new_events s (Action sc e s)) =
     [Param_Saved ''correlation_id'' (correlation_id (generate_ids sc e s)),
      Param_Saved ''customer_id'' (customer_id (generate_ids sc e s)),
      Param_Saved ''session_id'' (session_id (generate_ids sc e s)),
      Param_Saved ''trace_id'' (trace_id (generate_ids sc e s))]"
    by (simp add: e journey_start_events)
  show "saved_params (drop 4 (new_events s (Action sc e s))) =
     [(''LSN'', lsn sc), (''LTN'', ltn sc)] @
     map (\<lambda>st. (''TSN'', step_name st)) (take (Suc (steps_returned sc e)) (steps sc))"
    by (simp add: e n journey_start_events run_steps_saved_params [OF r2] steps_returned_def)
qed

text \<open>
  Claim C7. The first four things an iteration does are to store the four identifiers it has
  just generated; after that it stores only the two labels and the step names, the four
  buffers still hold the generated identifiers when the iteration ends, and every one of the
  step requests carries exactly these four values, in its headers and in its body. When every
  step request returns control to the script (\<open>steps_return\<close>) these are the N requests
  before the completion event; in general they are the requests of the steps up to and
  including the first whose request does not return, the first \<open>N\<close> requests at most.
\<close>

theorem identifiers_fixed_within_iteration:
  "sc \<in> set scripts \<Longrightarrow> idle s \<Longrightarrow> \<not> aborted s \<Longrightarrow>
   take 4 (new_events s (Action sc e s)) =
     [Param_Saved ''correlation_id'' (correlation_id (generate_ids sc e s)),
      Param_Saved ''customer_id'' (customer_id (generate_ids sc e s)),
      Param_Saved ''session_id'' (session_id (generate_ids sc e s)),
      Param_Saved ''trace_id'' (trace_id (generate_ids sc e s))] \<and>
   identifiers_of (Action sc e s) = identifiers_of (generate_ids sc e s) \<and>
   (steps_return sc e \<longrightarrow>
      saved_params (drop 4 (new_events s (Action sc e s))) =
        [(''LSN'', lsn sc), (''LTN'', ltn sc)] @ map (\<lambda>st. (''TSN'', step_name st)) (steps sc) \<and>
      length (butlast (sent_requests (new_events s (Action sc e s)))) = length (steps sc) \<and>
      (\<forall>r \<in> set (butlast (sent_requests (new_events s (Action sc e s)))).
         header ''x-correlation-id'' r = [correlation_id (generate_ids sc e s)] \<and>
         header ''x-customer-id'' r = [customer_id (generate_ids sc e s)] \<and>
         header ''x-session-id'' r = [session_id (generate_ids sc e s)] \<and>
         header ''x-trace-id'' r = [trace_id (generate_ids sc e s)] \<and>
         field ''journeyId'' (req_body r) = Some (JString (correlation_id (generate_ids sc e s))) \<and>
         field ''customerId'' (req_body r) = Some (JString (customer_id (generate_ids sc e s))) \<and>
         field ''sessionId'' (req_body r) = Some (JString (session_id (generate_ids sc e s))) \<and>
         field ''traceId'' (req_body r) = Some (JString (trace_id (generate_ids sc e s))))) \<and>
   saved_params (drop 4 (new_events s (Action sc e s))) =
     [(''LSN'', lsn sc), (''LTN'', ltn sc)] @
     map (\<lambda>st. (''TSN'', step_name st)) (take (Suc (steps_returned sc e)) (steps sc)) \<and>
   length (take (length (steps sc)) (sent_requests (new_events s (Action sc e s)))) =
     min (length (steps sc)) (Suc (steps_returned sc e)) \<and>
   (\<forall>r \<in> set (take (length (steps sc)) (sent_requests (new_events s (Action sc e s)))).
      header ''x-correlation-id'' r = [correlation_id (generate_ids sc e s)] \<and>
      header ''x-customer-id'' r = [customer_id (generate_ids sc e s)] \<and>
      header ''x-session-id'' r = [session_id (generate_ids sc e s)] \<and>
      header ''x-trace-id'' r = [trace_id (generate_ids sc e s)] \<and>
      field ''journeyId'' (req_body r) = Some (JString (correlation_id (generate_ids sc e s))) \<and>
      field ''customerId'' (req_body r) = Some (JString (customer_id (generate_ids sc e s))) \<and>
      field ''sessionId'' (req_body r) = Some (JString (session_id (generate_ids sc e s))) \<and>
      field ''traceId'' (req_body r) = Some (JString (trace_id (generate_ids sc e s))))"
proof -
  assume sc: "sc \<in> set scripts" and idle: "idle s" and running: "\<not> aborted s"
  have wf: "well_formed sc" using sc by (rule scripts_well_formed)
  let ?ps = "params (journey_start sc e s)"
  let ?reqs = "map (\<lambda>(st, cs). step_request sc e st ?ps cs)
                 (zip (take (Suc (steps_returned sc e)) (steps sc))
                      (cookies s # replicate (length (steps sc)) []))"
  let ?sent = "sent_requests (new_events s (Action sc e s))"
  have b: "take (length (steps sc)) ?sent = ?reqs"
    using wf idle running by (rule Action_step_requests)
  have each: "\<forall>r \<in> set ?reqs.
      header ''x-correlation-id'' r = [correlation_id (generate_ids sc e s)] \<and>
      header ''x-customer-id'' r = [customer_id (generate_ids sc e s)] \<and>
      header ''x-session-id'' r = [session_id (generate_ids sc e s)] \<and>
      header ''x-trace-id'' r = [trace_id (generate_ids sc e s)] \<and>
      field ''journeyId'' (req_body r) = Some (JString (correlation_id (generate_ids sc e s))) \<and>
      field ''customerId'' (req_body r) = Some (JString (customer_id (generate_ids sc e s))) \<and>
      field ''sessionId'' (req_body r) = Some (JString (session_id (generate_ids sc e s))) \<and>
      field ''traceId'' (req_body r) = Some (JString (trace_id (generate_ids sc e s)))"
    by (auto simp: header_step_request body_step_request journey_start_ids)
  have len: "length ?reqs = min (length (steps sc)) (Suc (steps_returned sc e))"
    by simp
  have general: "saved_params (drop 4 (new_events s (Action sc e s))) =
       [(''LSN'', lsn sc), (''LTN'', ltn sc)] @
       map (\<lambda>st. (''TSN'', step_name st)) (take (Suc (steps_returned sc e)) (steps sc)) \<and>
     length (take (length (steps sc)) ?sent) = min (length (steps sc)) (Suc (steps_returned sc e)) \<and>
     (\<forall>r \<in> set (take (length (steps sc)) ?sent).
        header ''x-correlation-id'' r = [correlation_id (generate_ids sc e s)] \<and>
        header ''x-customer-id'' r = [customer_id (generate_ids sc e s)] \<and>
        header ''x-session-id'' r = [session_id (generate_ids sc e s)] \<and>
        header ''x-trace-id'' r = [trace_id (generate_ids sc e s)] \<and>
        field ''journeyId'' (req_body r) = Some (JString (correlation_id (generate_ids sc e s))) \<and>
        field ''customerId'' (req_body r) = Some (JString (customer_id (generate_ids sc e s))) \<and>
        field ''sessionId'' (req_body r) = Some (JString (session_id (generate_ids sc e s))) \<and>
        field ''traceId'' (req_body r) = Some (JString (trace_id (generate_ids sc e s))))"
    using each len Action_events_head(2) [OF wf idle running, of e]
    by (simp only: b)
  have complete: "saved_params (drop 4 (new_events s (Action sc e s))) =
       [(''LSN'', lsn sc), (''LTN'', ltn sc)] @ map (\<lambda>st. (''TSN'', step_name st)) (steps sc) \<and>
     length (butlast ?sent) = length (steps sc) \<and>
     (\<forall>r \<in> set (butlast ?sent).
        header ''x-correlation-id'' r = [correlation_id (generate_ids sc e s)] \<and>
        header ''x-customer-id'' r = [customer_id (generate_ids sc e s)] \<and>
        header ''x-session-id'' r = [session_id (generate_ids sc e s)] \<and>
        header ''x-trace-id'' r = [trace_id (generate_ids sc e s)] \<and>
        field ''journeyId'' (req_body r) = Some (JString (correlation_id (generate_ids sc e s))) \<and>
        field ''customerId'' (req_body r) = Some (JString (customer_id (generate_ids sc e s))) \<and>
        field ''sessionId'' (req_body r) = Some (JString (session_id (generate_ids sc e s))) \<and>
        field ''traceId'' (req_body r) = Some (JString (trace_id (generate_ids sc e s))))"
    if all: "steps_return sc e"
  proof -
    have r: "steps_returned sc e = length (steps sc)"
      using all by (simp add: steps_return_iff)
    show ?thesis
      using general
      by (simp only: butlast_sent_requests [OF wf idle running all] r) simp
  qed
  show ?thesis
    using Action_events_head(1) [OF wf idle running, of e] Action_buffers [OF running, of sc e]
      general complete
    by blast
qed

theorem identifiers_fixed_within_iteration_witness:
  "argos \<in> set scripts \<and> idle started_vuser \<and> \<not> aborted started_vuser \<and>
   steps_return argos calm_env \<and>
   length (butlast (sent_requests (new_events started_vuser (Action argos calm_env started_vuser)))) = 6 \<and>
   map (header ''x-correlation-id'')
     (butlast (sent_requests (new_events started_vuser (Action argos calm_env started_vuser)))) =
   replicate 6 [''LR_Argos_LoadTest_20260106_1_1_1767707283''] \<and>
   map (header ''x-trace-id'')
     (butlast (sent_requests (new_events started_vuser (Action argos calm_env started_vuser)))) =
   replicate 6 [''trace_LR_Argos_LoadTest_20260106_1_1_1767707283_1767707283'']"
proof -
  have c: "correlation_id (generate_ids argos calm_env started_vuser) =
           ''LR_Argos_LoadTest_20260106_1_1_1767707283''"
    by (simp add: generate_ids_correlation_id [OF argos_well_formed] argos_labels calm_env_def
          show_int_def show_nat.simps digit_char_def)
  have calm_clock: "clock calm_env 2 = 1767707283"
    by (simp add: calm_env_def)
  have t: "trace_id (generate_ids argos calm_env started_vuser) =
           ''trace_LR_Argos_LoadTest_20260106_1_1_1767707283_1767707283''"
    by (simp add: generate_ids_trace_id c calm_clock show_int_def show_nat.simps digit_char_def)
  let ?rs = "butlast (sent_requests (new_events started_vuser (Action argos calm_env started_vuser)))"
  have all: "length ?rs = 6 \<and>
      (\<forall>r \<in> set ?rs.
         header ''x-correlation-id'' r = [''LR_Argos_LoadTest_20260106_1_1_1767707283''] \<and>
         header ''x-trace-id'' r = [''trace_LR_Argos_LoadTest_20260106_1_1_1767707283_1767707283''])"
    using identifiers_fixed_within_iteration
        [OF argos_in_scripts idle_started_vuser running_started_vuser, of calm_env]
      calm_env_returns [of argos]
    by (simp add: c t argos_steps_length)
  from all have len: "length ?rs = 6"
    by blast
  from all have e1: "\<forall>r \<in> set ?rs.
      header ''x-correlation-id'' r = [''LR_Argos_LoadTest_20260106_1_1_1767707283'']"
    by blast
  from all have e2: "\<forall>r \<in> set ?rs.
      header ''x-trace-id'' r = [''trace_LR_Argos_LoadTest_20260106_1_1_1767707283_1767707283'']"
    by blast
  have m1: "map (header ''x-correlation-id'') ?rs =
      replicate (length ?rs) [''LR_Argos_LoadTest_20260106_1_1_1767707283'']"
    using e1 by (rule map_constant)
  have m2: "map (header ''x-trace-id'') ?rs =
      replicate (length ?rs) [''trace_LR_Argos_LoadTest_20260106_1_1_1767707283_1767707283'']"
    using e2 by (rule map_constant)
  show ?thesis
    using argos_in_scripts idle_started_vuser running_started_vuser calm_env_returns [of argos]
      len m1 [unfolded len] m2 [unfolded len]
    by blast
qed



lemma execute_step_server [simp]:
  "execute_step sc (e\<lparr>server := f\<rparr>) st r s = execute_step sc e st r s"
  by (simp add: execute_step_def)

lemma generate_ids_server [simp]: "generate_ids sc (e\<lparr>server := f\<rparr>) s = generate_ids sc e s"
  by (simp add: generate_ids_def)

lemma journey_start_server [simp]: "journey_start sc (e\<lparr>server := f\<rparr>) s = journey_start sc e s"
  by (simp add: journey_start_def)

lemma tracing_value_server [simp]: "tracing_value sc (e\<lparr>server := f\<rparr>) n c = tracing_value sc e n c"
  by (simp add: tracing_value_def)

lemma run_steps_server:
  "(\<And>j. k \<le> j \<Longrightarrow> j < k + length sts \<Longrightarrow> f j = server e j) \<Longrightarrow>
   run_steps sc (e\<lparr>server := f\<rparr>) k sts s = run_steps sc e k sts s"
  by (induction sts arbitrary: k s) simp_all

lemma steps_return_server:
  "(\<And>j. j < length (steps sc) \<Longrightarrow> f j = server e j) \<Longrightarrow>
   steps_return sc (e\<lparr>server := f\<rparr>) = steps_return sc e"
  by (simp add: steps_return_def list_all_iff)

lemma completion_body_fields:
  "well_formed sc \<Longrightarrow>
   field ''correlationId'' (req_body (completion_request sc ps dt cs)) =
     Some (JString (param_text ps ''correlation_id'')) \<and>
   field ''customerId'' (req_body (completion_request sc ps dt cs)) =
     Some (JString (param_text ps ''customer_id'')) \<and>
   field ''companyName'' (req_body (completion_request sc ps dt cs)) = Some (JString (company sc)) \<and>
   field ''customerName'' (req_body (completion_request sc ps dt cs)) =
     Some (JString (param_text ps ''customer_name'')) \<and>
   field ''customerSegment'' (req_body (completion_request sc ps dt cs)) =
     Some (JString (param_text ps ''customer_segment'')) \<and>
   field ''totalSteps'' (req_body (completion_request sc ps dt cs)) =
     Some (JNumber (int (length (steps sc)))) \<and>
   field ''loadTest'' (req_body (completion_request sc ps dt cs)) = Some (JBool True)"
  by (simp add: completion_request_def completion_body_def field_def well_formed_plain)
     (simp add: well_formed_def)

lemma journey_start_profile:
  "param_text (params (journey_start sc e s)) ''customer_name'' = param_text (params s) ''customer_name''"
  "param_text (params (journey_start sc e s)) ''customer_segment'' = param_text (params s) ''customer_segment''"
  by (simp_all add: journey_start_params)

lemma step_requests_not_completion:
  "well_formed sc \<Longrightarrow>
   ''Journey_Completion_Event'' \<notin>
     set (map req_name (map (\<lambda>(st, cs). step_request sc e st ps cs) (zip (steps sc) cookie_jars)))"
  by (auto simp: step_request_def dest: set_zip_leftD)



lemma started_vuser_profile:
  "lr_eval_string started_vuser ''{customer_name}'' = ''Sarah Johnson''"
  "lr_eval_string started_vuser ''{customer_segment}'' = ''Premium''"
  by (simp_all add: started_vuser_def vuser_init_params param_text_def calm_env_def
        customer_names_def customer_segments_def)


lemma revert_all_subset: "set (revert_all hs) \<subseteq> set hs"
  by (auto simp: revert_all_def)

lemma revert_all_step_name: "filter (\<lambda>h. fst h = ''x-step-name'') (revert_all hs) = []"
  by (auto simp: revert_all_def filter_empty_conv)

text \<open>The revert calls of a step block name \<open>x-dynatrace-test\<close>, not \<open>X-dynaTrace\<close>, and they
  do not name \<open>x-service-name\<close>: automatic headers of these two names would stay.\<close>

lemma revert_all_keeps:
  "revert_all [(''X-dynaTrace'', v), (''x-service-name'', w), (''x-step-name'', n)] =
     [(''X-dynaTrace'', v), (''x-service-name'', w)]"
  by (simp add: revert_all_def)

lemma execute_step_auto_headers_subset:
  "set (auto_headers (execute_step sc e st r s)) \<subseteq> set (auto_headers s)"
  using revert_all_subset [of "auto_headers s"]
  by (cases "aborted s"; cases "call_returns (continue_on_error e) r")
     (simp_all add: execute_step_auto_headers_stopped)

text \<open>
  Claim C2. When step \<open>b\<close> follows step \<open>a\<close>, the client holds no pending header after
  step \<open>a\<close>: headers added with \<^verbatim>\<open>web_add_header\<close> go out with the next request only, so all
  twelve headers of step \<open>a\<close> were released by its own request. The request of step \<open>b\<close>
  carries the twelve headers that step \<open>b\<close> attaches and, besides them, only automatic headers
  that were already set before step \<open>a\<close>; in particular its only \<open>x-step-name\<close> is the name
  of \<open>b\<close>. (The nine \<^verbatim>\<open>web_revert_auto_header\<close> calls act on automatic headers, of which
  the scripts add none.) Step \<open>b\<close> follows step \<open>a\<close> when the request of \<open>a\<close> returns control
  to the script, whatever came back for it; when it does not, the virtual user is aborted and
  step \<open>b\<close> sends no request at all. Stated for step \<open>a\<close> starting in any state of a virtual
  user that is not aborted.
\<close>

theorem step_headers_do_not_leak:
  "sc \<in> set scripts \<Longrightarrow> a \<in> set (steps sc) \<Longrightarrow> b \<in> set (steps sc) \<Longrightarrow> \<not> aborted s \<Longrightarrow>
   pending_headers (execute_step sc e a r s) = [] \<and>
   set (auto_headers (execute_step sc e a r s)) \<subseteq> set (auto_headers s) \<and>
   (call_returns (continue_on_error e) r \<longrightarrow>
      map req_headers
        (sent_requests
           (new_events (execute_step sc e a r s) (execute_step sc e b r' (execute_step sc e a r s)))) =
        [step_headers sc e b ((params s)(''TSN'' \<mapsto> step_name b)) @
         auto_headers (execute_step sc e a r s)] \<and>
      map (header ''x-step-name'')
        (sent_requests
           (new_events (execute_step sc e a r s) (execute_step sc e b r' (execute_step sc e a r s)))) =
        [[step_name b]]) \<and>
   (\<not> call_returns (continue_on_error e) r \<longrightarrow>
      sent_requests
        (new_events (execute_step sc e a r s) (execute_step sc e b r' (execute_step sc e a r s))) =
      [])"
proof -
  assume sc: "sc \<in> set scripts" and a: "a \<in> set (steps sc)" and b: "b \<in> set (steps sc)"
    and running: "\<not> aborted s"
  have wf: "well_formed sc" using sc by (rule scripts_well_formed)
  have pb: "plain (step_name b)" "plain (service_name b)"
    using well_formed_steps(1) [OF wf] b by (auto simp: list_all_iff)
  let ?s1 = "execute_step sc e a r s"
  have p: "pending_headers ?s1 = []"
    using running by simp
  have follows: "map req_headers (sent_requests (new_events ?s1 (execute_step sc e b r' ?s1))) =
       [step_headers sc e b ((params s)(''TSN'' \<mapsto> step_name b)) @ auto_headers ?s1] \<and>
     map (header ''x-step-name'')
       (sent_requests (new_events ?s1 (execute_step sc e b r' ?s1))) = [[step_name b]]"
    if ret: "call_returns (continue_on_error e) r"
  proof -
    have r1: "\<not> aborted ?s1" using running ret by simp
    have reqs: "sent_requests (new_events ?s1 (execute_step sc e b r' ?s1)) =
       [(step_request sc e b (params ?s1) (cookies ?s1))
          \<lparr>req_headers :=
             pending_headers ?s1 @ step_headers sc e b ((params ?s1)(''TSN'' \<mapsto> step_name b)) @
             auto_headers ?s1\<rparr>]"
      using wf pb r1 by (rule execute_step_requests)
    have hs: "map req_headers (sent_requests (new_events ?s1 (execute_step sc e b r' ?s1))) =
       [step_headers sc e b ((params s)(''TSN'' \<mapsto> step_name b)) @ auto_headers ?s1]"
      using running ret by (simp add: reqs)
    have name: "map (header ''x-step-name'')
         (sent_requests (new_events ?s1 (execute_step sc e b r' ?s1))) = [[step_name b]]"
      using running ret by (simp add: reqs header_def step_headers_def revert_all_step_name)
    show ?thesis
      using hs name by simp
  qed
  have stops: "sent_requests (new_events ?s1 (execute_step sc e b r' ?s1)) = []"
    if stop: "\<not> call_returns (continue_on_error e) r"
    using stop by simp
  show ?thesis
    using p execute_step_auto_headers_subset [of sc e a r s] follows stops by blast
qed

lemma first_two_steps:
  "\<lparr>step_number = 1, step_name = ''ProductDiscovery'', service_name = ''ProductDiscoveryService'',
    estimated_duration = 4, think_time = 5\<rparr> \<in> set (steps argos)"
  "\<lparr>step_number = 2, step_name = ''BasketManagement'', service_name = ''BasketManagementService'',
    estimated_duration = 3, think_time = 5\<rparr> \<in> set (steps argos)"
  by (simp_all add: argos_def argos_steps_def)

lemma calm_call_returns: "call_returns (continue_on_error calm_env) (Http_Response 200 [])"
  by (simp add: call_returns_iff request_failed_def)

theorem step_headers_do_not_leak_witness:
  "argos \<in> set scripts \<and>
   \<lparr>step_number = 1, step_name = ''ProductDiscovery'', service_name = ''ProductDiscoveryService'',
    estimated_duration = 4, think_time = 5\<rparr> \<in> set (steps argos) \<and>
   \<lparr>step_number = 2, step_name = ''BasketManagement'', service_name = ''BasketManagementService'',
    estimated_duration = 3, think_time = 5\<rparr> \<in> set (steps argos) \<and>
   \<not> aborted started_vuser \<and>
   call_returns (continue_on_error calm_env) (Http_Response 200 []) \<and>
   map (header ''x-step-name'')
     (sent_requests
        (new_events
           (execute_step argos calm_env
              \<lparr>step_number = 1, step_name = ''ProductDiscovery'',
               service_name = ''ProductDiscoveryService'', estimated_duration = 4, think_time = 5\<rparr>
              (Http_Response 200 []) started_vuser)
           (execute_step argos calm_env
              \<lparr>step_number = 2, step_name = ''BasketManagement'',
               service_name = ''BasketManagementService'', estimated_duration = 3, think_time = 5\<rparr>
              (Http_Response 200 [])
              (execute_step argos calm_env
                 \<lparr>step_number = 1, step_name = ''ProductDiscovery'',
                  service_name = ''ProductDiscoveryService'', estimated_duration = 4,
                  think_time = 5\<rparr>
                 (Http_Response 200 []) started_vuser)))) =
   [[''BasketManagement'']]"
  using step_headers_do_not_leak [OF argos_in_scripts first_two_steps running_started_vuser,
      of calm_env "Http_Response 200 []" "Http_Response 200 []"]
    argos_in_scripts first_two_steps running_started_vuser calm_call_returns
  by simp


section \<open>The response check\<close>

text \<open>The threshold itself: when the parameter \<open>status\<close> holds a status code as \<^verbatim>\<open>%d\<close> prints it,
  the verdict is Pass below 400 and Fail from 400 on.\<close>

lemma verdict_threshold:
  "ps ''status'' = Some (show_int n) \<Longrightarrow> verdict ps = (if n < 400 then LR_PASS else LR_FAIL)"
  by (simp add: verdict_def param_text_def atoi_show_int)

text \<open>No statement of the scripts stores the parameter \<open>status\<close>.\<close>

lemma Action_status_param: "params (Action sc e s) ''status'' = params s ''status''"
proof (cases "aborted s")
  case True
  then show ?thesis by (simp add: Action_aborted)
next
  case False
  show ?thesis
    by (cases "aborted (run_steps sc e 0 (steps sc) (journey_start sc e s))")
       (simp_all add: Action_split [OF False] run_steps_params journey_start_params)
qed

lemma vuser_init_status_param: "params (vuser_init sc e s) ''status'' = params s ''status''"
  by (simp add: vuser_init_params)

lemma started_vuser_verdict: "verdict (params (vuser_init sc e fresh_vuser)) = LR_PASS"
  by (simp add: verdict_def param_text_def vuser_init_params fresh_vuser_def atoi_def
        is_space_def is_digit_def)

text \<open>In no iteration of a run that starts from a fresh virtual user is the parameter
  \<open>status\<close> defined, so the verdict of every check is Pass, whatever the server has answered.\<close>

lemma status_never_defined:
  "params (foldl (\<lambda>s e. Action sc e s) (vuser_init sc e0 fresh_vuser) es) ''status'' = None"
  by (induction es rule: rev_induct)
     (simp_all add: Action_status_param vuser_init_status_param fresh_vuser_def)

lemma verdict_undefined_status: "ps ''status'' = None \<Longrightarrow> verdict ps = LR_PASS"
  by (simp add: verdict_def param_text_def atoi_def is_space_def is_digit_def)

lemma every_check_passes:
  "verdict (params (foldl (\<lambda>s e. Action sc e s) (vuser_init sc e0 fresh_vuser) es)) = LR_PASS"
  using status_never_defined by (rule verdict_undefined_status)

text \<open>
  With either value of the run-time setting, no iteration records \<open>LR_FAIL\<close> for a step:
  with ``continue on error'' the check is reached and passes; without it the check is not
  reached after a request in error (\<open>execute_step_results_stopped\<close>), and it passes after
  every other request.
\<close>

lemma no_step_recorded_as_failed:
  assumes wf: "well_formed sc" and idle: "idle s" and running: "\<not> aborted s"
    and undefined: "params s ''status'' = None"
  shows "LR_FAIL \<notin> snd ` set (transaction_results (new_events s (Action sc e s)))"
  using verdict_undefined_status [of "params s", OF undefined]
  by (auto simp: Action_results [OF wf idle running] dest: in_set_takeD)

text \<open>
  Claim C1 does not hold of the code. The check after a step request compares
  \<^verbatim>\<open>atoi(lr_eval_string("{status}"))\<close> with 400, but nothing stores a parameter \<open>status\<close>: the
  scripts register no \<^verbatim>\<open>web_reg_save_param\<close> and never read the return code of the request. For
  a virtual user fresh from \<^verbatim>\<open>vuser_init\<close> the reference stays as it is, \<^verbatim>\<open>atoi\<close> gives 0,
  and every step transaction is closed with \<open>LR_PASS\<close>, here while the server answers each of
  the seven requests with status 500 (in a scenario run with ``continue on error'', so that
  every check is reached).
\<close>

theorem server_error_recorded_as_pass:
  "received
     (new_events (vuser_init argos failing_env fresh_vuser)
        (Action argos failing_env (vuser_init argos failing_env fresh_vuser))) =
   [Http_Response 500 [], Http_Response 500 [], Http_Response 500 [], Http_Response 500 [],
    Http_Response 500 [], Http_Response 500 [], Http_Response 500 []] \<and>
   transaction_results
     (new_events (vuser_init argos failing_env fresh_vuser)
        (Action argos failing_env (vuser_init argos failing_env fresh_vuser))) =
   [(''ProductDiscovery'', LR_PASS), (''BasketManagement'', LR_PASS),
    (''CheckoutInitiation'', LR_PASS), (''PaymentProcessing'', LR_PASS),
    (''FulfilmentAllocation'', LR_PASS), (''DeliveryCompletion'', LR_PASS),
    (''Full_Customer_Journey'', LR_AUTO)]"
proof -
  let ?s = "vuser_init argos failing_env fresh_vuser"
  have idle: "idle ?s" by (intro idle_vuser_init idle_fresh_vuser)
  have running: "\<not> aborted ?s" by simp
  have all: "steps_returned argos failing_env = length (steps argos)"
    using failing_env_returns [of argos] by (simp add: steps_return_iff)
  have r: "received (new_events ?s (Action argos failing_env ?s)) =
           map (server failing_env) [0 ..< Suc (length (steps argos))]"
    using failing_env_returns [of argos]
    by (simp add: Action_received [OF argos_well_formed idle running] all)
  have t: "transaction_results (new_events ?s (Action argos failing_env ?s)) =
     map (\<lambda>st. (step_name st, verdict (params ?s))) (steps argos) @
     [(''Full_Customer_Journey'', LR_AUTO)]"
    using failing_env_returns [of argos]
    by (simp add: Action_results [OF argos_well_formed idle running] all)
  have srv: "server failing_env = (\<lambda>k. Http_Response 500 [])"
    by (simp add: failing_env_def)
  show ?thesis
    by (simp add: r t srv started_vuser_verdict argos_steps_length upt_rec)
       (simp add: argos_def argos_steps_def)
qed


end
